theory Spec2Isabelle
  imports Main "HOL-Library.AList"
begin

section \<open>Python values, text and dictionaries\<close>

text \<open>
  Both programs exchange JSON documents and keep them in Python dictionaries. A parsed
  JSON document is a value of \<open>json\<close>; an object keeps its members in insertion order,
  as a Python \<open>dict\<close> does. Text is modelled over 8-bit characters, and JSON numbers are
  integers (floating point numbers are outside the model).
\<close>

datatype error = AttributeError | KeyError | NameError | ValueError | JSONDecodeError

datatype json =
    JNull
  | JBool bool
  | JInt int
  | JStr string
  | JArr "json list"
  | JObj "(string \<times> json) list"

text \<open>\<open>d.get(k, default)\<close> on a value that may not be a dictionary: every other value has
  no attribute \<open>get\<close>.\<close>

definition dict_get :: "(string \<times> json) list \<Rightarrow> string \<Rightarrow> json \<Rightarrow> json" where
  "dict_get kvs k d = (case map_of kvs k of None \<Rightarrow> d | Some v \<Rightarrow> v)"

fun py_get :: "json \<Rightarrow> string \<Rightarrow> json \<Rightarrow> error + json" where
  "py_get (JObj kvs) k d = Inr (dict_get kvs k d)"
| "py_get _ k d = Inl AttributeError"

text \<open>\<open>d[k]\<close>: a missing key raises.\<close>

fun py_item :: "json \<Rightarrow> string \<Rightarrow> error + json" where
  "py_item (JObj kvs) k = (case map_of kvs k of None \<Rightarrow> Inl KeyError | Some v \<Rightarrow> Inr v)"
| "py_item _ k = Inl AttributeError"

fun isinstance_dict :: "json \<Rightarrow> bool" where
  "isinstance_dict (JObj kvs) = True"
| "isinstance_dict _ = False"

subsection \<open>Whitespace: \<open>strip\<close>, \<open>rstrip\<close>, \<open>split\<close>\<close>

text \<open>The characters below code point 256 for which \<open>str.isspace\<close> holds.\<close>

definition py_isspace :: "char \<Rightarrow> bool" where
  "py_isspace c \<longleftrightarrow>
     c \<in> set [CHR 0x09, CHR 0x0A, CHR 0x0B, CHR 0x0C, CHR 0x0D,
               CHR 0x1C, CHR 0x1D, CHR 0x1E, CHR 0x1F, CHR 0x20, CHR 0x85, CHR 0xA0]"

definition py_rstrip :: "string \<Rightarrow> string" where
  "py_rstrip s = rev (dropWhile py_isspace (rev s))"

definition py_strip :: "string \<Rightarrow> string" where
  "py_strip s = dropWhile py_isspace (py_rstrip s)"

text \<open>\<open>s.rstrip(cs)\<close> with an explicit set of characters.\<close>

definition py_rstrip_chars :: "string \<Rightarrow> string \<Rightarrow> string" where
  "py_rstrip_chars cs s = rev (dropWhile (\<lambda>c. c \<in> set cs) (rev s))"

text \<open>
  \<open>s.split(maxsplit=n)\<close>: the separator is any run of whitespace, leading whitespace is
  skipped, and once \<open>n\<close> splits are made the rest of the string, without its leading
  whitespace, is the last item.
\<close>

function py_split :: "nat \<Rightarrow> string \<Rightarrow> string list" where
  "py_split n s =
     (let s' = dropWhile py_isspace s in
      if s' = [] then []
      else if n = 0 then [s']
      else takeWhile (\<lambda>c. \<not> py_isspace c) s'
           # py_split (n - 1) (dropWhile (\<lambda>c. \<not> py_isspace c) s'))"
  by pat_completeness auto
termination
proof (relation "measure (\<lambda>(n, s). length s)", goal_cases)
  case 1
  show ?case by simp
next
  case (2 n s s')
  from 2(2) obtain c cs where s': "s' = c # cs"
    by (cases s') auto
  have ne: "dropWhile py_isspace s \<noteq> []"
    using 2(1) 2(2) by simp
  have dw: "dropWhile py_isspace s = c # cs"
    using 2(1) s' by simp
  have "\<not> py_isspace c"
    using hd_dropWhile [OF ne] by (simp add: dw)
  then have "dropWhile (\<lambda>c. \<not> py_isspace c) s' = dropWhile (\<lambda>c. \<not> py_isspace c) cs"
    using s' by simp
  moreover have "length (dropWhile (\<lambda>c. \<not> py_isspace c) cs) \<le> length cs"
    by (rule length_dropWhile_le)
  moreover have "length s' \<le> length s"
    using 2(1) by (simp add: length_dropWhile_le)
  ultimately show ?case
    using s' by simp
qed

declare py_split.simps [simp del]

subsection \<open>\<open>str.upper\<close>\<close>

text \<open>
  The upper case of an 8-bit character: an ASCII letter and a Latin-1 letter at 0xE0 to
  0xFE (the division sign 0xF7 is no letter) lose 32, and the sharp s at 0xDF becomes
  \<open>SS\<close>. The upper case of the two letters at 0xB5 and 0xFF lies beyond 8 bits; they are
  left as they are.
\<close>

definition upper_char :: "char \<Rightarrow> string" where
  "upper_char c =
     (case map_of (zip ''abcdefghijklmnopqrstuvwxyz'' ''ABCDEFGHIJKLMNOPQRSTUVWXYZ'') c of
        Some u \<Rightarrow> [u]
      | None \<Rightarrow>
          if (of_char c :: nat) = 223 then ''SS''
          else if 224 \<le> (of_char c :: nat) \<and> (of_char c :: nat) \<le> 254
                  \<and> (of_char c :: nat) \<noteq> 247
               then [char_of ((of_char c :: nat) - 32)]
          else [c])"

definition py_upper :: "string \<Rightarrow> string" where
  "py_upper s = concat (map upper_char s)"

subsection \<open>\<open>str(x)\<close> and \<open>repr(x)\<close>\<close>

definition digit_char :: "nat \<Rightarrow> char" where
  "digit_char n = ''0123456789abcdef'' ! (n mod 16)"

function show_nat :: "nat \<Rightarrow> string" where
  "show_nat n = (if n < 10 then [digit_char n] else show_nat (n div 10) @ [digit_char (n mod 10)])"
  by pat_completeness auto
termination
  by (relation "measure id") auto

declare show_nat.simps [simp del]

definition show_int :: "int \<Rightarrow> string" where
  "show_int i = (if i < 0 then CHR ''-'' # show_nat (nat (- i)) else show_nat (nat i))"

definition hex2 :: "char \<Rightarrow> string" where
  "hex2 c = [digit_char (of_char c div 16), digit_char (of_char c mod 16)]"

fun py_join :: "string \<Rightarrow> string list \<Rightarrow> string" where
  "py_join sep [] = []"
| "py_join sep [x] = x"
| "py_join sep (x # y # ys) = x @ sep @ py_join sep (y # ys)"

text \<open>One character inside the quotes \<open>q\<close> of \<open>repr\<close> of a string.\<close>

definition repr_char :: "char \<Rightarrow> char \<Rightarrow> string" where
  "repr_char q c =
     (let n = (of_char c :: nat) in
      if c = q \<or> c = CHR 0x5C then [CHR 0x5C, c]
      else if c = CHR 0x09 then [CHR 0x5C, CHR ''t'']
      else if c = CHR 0x0A then [CHR 0x5C, CHR ''n'']
      else if c = CHR 0x0D then [CHR 0x5C, CHR ''r'']
      else if n < 32 \<or> n = 127 then [CHR 0x5C, CHR ''x''] @ hex2 c
      else if n < 127 then [c]
      else if n \<le> 160 \<or> n = 173 then [CHR 0x5C, CHR ''x''] @ hex2 c
      else [c])"

definition repr_str :: "string \<Rightarrow> string" where
  "repr_str s =
     (let q = (if CHR 0x27 \<in> set s \<and> CHR 0x22 \<notin> set s then CHR 0x22 else CHR 0x27)
      in q # concat (map (repr_char q) s) @ [q])"

primrec py_repr :: "json \<Rightarrow> string" where
  "py_repr JNull = ''None''"
| "py_repr (JBool b) = (if b then ''True'' else ''False'')"
| "py_repr (JInt i) = show_int i"
| "py_repr (JStr s) = repr_str s"
| "py_repr (JArr xs) = ''['' @ py_join '', '' (map py_repr xs) @ '']''"
| "py_repr (JObj kvs) =
     ''{'' @ py_join '', ''
              (map (\<lambda>(k, r). repr_str k @ '': '' @ r) (map (map_prod id py_repr) kvs)) @ ''}''"

text \<open>\<open>str(x)\<close> is the text itself for a string and \<open>repr(x)\<close> for every other value.\<close>

fun py_str :: "json \<Rightarrow> string" where
  "py_str (JStr s) = s"
| "py_str v = py_repr v"

subsection \<open>\<open>json.dumps\<close>\<close>

text \<open>
  \<open>jdump(obj).decode('utf-8')\<close>: \<open>json.dumps\<close> with its defaults, so every character
  outside the printable ASCII range is escaped and the text holds no line break.
  Its inverse \<open>jload\<close> is a parameter of the functions that read the log, of type
  \<open>string \<Rightarrow> json option\<close>, with \<open>None\<close> for a text \<open>json.loads\<close> rejects.
\<close>

definition json_char :: "char \<Rightarrow> string" where
  "json_char c =
     (let n = (of_char c :: nat) in
      if c = CHR 0x22 then [CHR 0x5C, CHR 0x22]
      else if c = CHR 0x5C then [CHR 0x5C, CHR 0x5C]
      else if c = CHR 0x0A then [CHR 0x5C, CHR ''n'']
      else if c = CHR 0x0D then [CHR 0x5C, CHR ''r'']
      else if c = CHR 0x09 then [CHR 0x5C, CHR ''t'']
      else if c = CHR 0x08 then [CHR 0x5C, CHR ''b'']
      else if c = CHR 0x0C then [CHR 0x5C, CHR ''f'']
      else if n < 32 \<or> 126 < n then [CHR 0x5C, CHR ''u'', CHR ''0'', CHR ''0''] @ hex2 c
      else [c])"

definition json_str :: "string \<Rightarrow> string" where
  "json_str s = CHR 0x22 # concat (map json_char s) @ [CHR 0x22]"

primrec jdump :: "json \<Rightarrow> string" where
  "jdump JNull = ''null''"
| "jdump (JBool b) = (if b then ''true'' else ''false'')"
| "jdump (JInt i) = show_int i"
| "jdump (JStr s) = json_str s"
| "jdump (JArr xs) = ''['' @ py_join '', '' (map jdump xs) @ '']''"
| "jdump (JObj kvs) =
     ''{'' @ py_join '', ''
              (map (\<lambda>(k, r). json_str k @ '': '' @ r) (map (map_prod id jdump) kvs)) @ ''}''"

section \<open>The participant (\<open>participant.py\<close>)\<close>

text \<open>
  A transaction record of the participant is the dictionary
  \<open>{"state": ..., "op": ..., "ts": ...}\<close>. The state is one of four strings; the time
  stamp is never read and is left out.
\<close>

datatype pstatus = READY | ABORTED | COMMITTED | PRECOMMIT

fun state_name :: "pstatus \<Rightarrow> string" where
  "state_name READY = ''READY''"
| "state_name ABORTED = ''ABORTED''"
| "state_name COMMITTED = ''COMMITTED''"
| "state_name PRECOMMIT = ''PRECOMMIT''"

record prec =
  state :: pstatus
  op :: json

text \<open>
  The globals of the process: the key-value store \<open>kv\<close>, the transaction table \<open>TX\<close>,
  and the log file. \<open>WAL = None\<close> is \<open>WAL_PATH = None\<close> (no log is kept); otherwise
  \<open>WAL\<close> holds the text of the file, empty when the file does not exist yet.
\<close>

record participant =
  kv :: "string \<rightharpoonup> string"
  TX :: "string \<rightharpoonup> prec"
  WAL :: "string option"

definition wal_append :: "string \<Rightarrow> participant \<Rightarrow> participant" where
  "wal_append line st =
     (case WAL st of
        None \<Rightarrow> st
      | Some f \<Rightarrow> st\<lparr>WAL := Some (f @ py_rstrip_chars [CHR 0x0A] line @ [CHR 0x0A])\<rparr>)"

definition validate_op :: "json \<Rightarrow> error + bool" where
  "validate_op opv =
     (case py_get opv ''type'' (JStr '''') of
        Inl e \<Rightarrow> Inl e
      | Inr tv \<Rightarrow>
          if py_upper (py_str tv) \<noteq> ''SET'' then Inr False
          else (case py_get opv ''key'' (JStr '''') of
                  Inl e \<Rightarrow> Inl e
                | Inr k \<Rightarrow> if py_strip (py_str k) = [] then Inr False else Inr True))"

definition apply_op :: "json \<Rightarrow> (string \<rightharpoonup> string) \<Rightarrow> error + (string \<rightharpoonup> string)" where
  "apply_op opv store =
     (case py_get opv ''type'' (JStr '''') of
        Inl e \<Rightarrow> Inl e
      | Inr tv \<Rightarrow>
          if py_upper (py_str tv) = ''SET'' then
            (case py_item opv ''key'' of
               Inl e \<Rightarrow> Inl e
             | Inr k \<Rightarrow>
                 (case py_get opv ''value'' (JStr '''') of
                    Inl e \<Rightarrow> Inl e
                  | Inr v \<Rightarrow> Inr (store(py_str k \<mapsto> py_str v))))
          else Inr store)"

subsection \<open>The request handler\<close>

text \<open>
  A reply is the status code and the JSON body given to \<open>_send\<close>. A handler returns the
  reply, or the exception it raised, together with the globals it leaves behind. Every
  raise of \<open>do_POST\<close> comes before its first write to the globals.
\<close>

type_synonym response = "int \<times> json"

definition err_body :: "string \<Rightarrow> json" where
  "err_body msg = JObj [(''ok'', JBool False), (''error'', JStr msg)]"

text \<open>\<open>str(body.get("txid", "")).strip()\<close>\<close>

definition body_txid :: "json \<Rightarrow> error + string" where
  "body_txid body =
     (case py_get body ''txid'' (JStr '''') of
        Inl e \<Rightarrow> Inl e
      | Inr v \<Rightarrow> Inr (py_strip (py_str v)))"

text \<open>
  The branches for \<open>/prepare\<close> and \<open>/can_commit\<close> are the same code, up to the keyword
  \<open>cmd\<close> they write to the log (\<open>PREPARE\<close> or \<open>CAN_COMMIT\<close>).
\<close>

definition post_vote :: "string \<Rightarrow> json \<Rightarrow> participant \<Rightarrow> (error + response) \<times> participant" where
  "post_vote cmd body st =
     (case body_txid body of
        Inl e \<Rightarrow> (Inl e, st)
      | Inr txid \<Rightarrow>
          (case py_get body ''op'' JNull of
             Inl e \<Rightarrow> (Inl e, st)
           | Inr opv \<Rightarrow>
               if txid = [] \<or> \<not> isinstance_dict opv
               then (Inr (400, err_body ''txid and op required''), st)
               else
                 (case validate_op opv of
                    Inl e \<Rightarrow> (Inl e, st)
                  | Inr valid \<Rightarrow>
                      let vote = (if valid then ''YES'' else ''NO'');
                          st1 = st\<lparr>TX := (TX st)(txid \<mapsto>
                                  \<lparr>state = (if vote = ''YES'' then READY else ABORTED),
                                   op = opv\<rparr>)\<rparr>;
                          st2 = wal_append (txid @ '' '' @ cmd @ '' '' @ vote @ '' '' @ jdump opv) st1
                      in (case TX st2 txid of
                            None \<Rightarrow> (Inl KeyError, st2)
                          | Some r \<Rightarrow>
                              (Inr (200, JObj [(''ok'', JBool True), (''vote'', JStr vote),
                                               (''state'', JStr (state_name (state r)))]), st2)))))"

definition post_commit :: "json \<Rightarrow> participant \<Rightarrow> (error + response) \<times> participant" where
  "post_commit body st =
     (case body_txid body of
        Inl e \<Rightarrow> (Inl e, st)
      | Inr txid \<Rightarrow>
          if txid = [] then (Inr (400, err_body ''txid required''), st)
          else
            (case TX st txid of
               None \<Rightarrow> (Inr (409, err_body ''commit requires READY/PRECOMMIT''), st)
             | Some r \<Rightarrow>
                 if state r \<noteq> READY \<and> state r \<noteq> PRECOMMIT
                 then (Inr (409, err_body ''commit requires READY/PRECOMMIT''), st)
                 else
                   (case apply_op (op r) (kv st) of
                      Inl e \<Rightarrow> (Inl e, st)
                    | Inr store \<Rightarrow>
                        let st1 = st\<lparr>kv := store, TX := (TX st)(txid \<mapsto> r\<lparr>state := COMMITTED\<rparr>)\<rparr>;
                            st2 = wal_append (txid @ '' COMMIT'') st1
                        in (Inr (200, JObj [(''ok'', JBool True), (''txid'', JStr txid),
                                            (''state'', JStr ''COMMITTED'')]), st2))))"

definition post_abort :: "json \<Rightarrow> participant \<Rightarrow> (error + response) \<times> participant" where
  "post_abort body st =
     (case body_txid body of
        Inl e \<Rightarrow> (Inl e, st)
      | Inr txid \<Rightarrow>
          if txid = [] then (Inr (400, err_body ''txid required''), st)
          else
            (case TX st txid of
               None \<Rightarrow> (Inr (409, err_body ''no such tx''), st)
             | Some r \<Rightarrow>
                 let st1 = st\<lparr>TX := (TX st)(txid \<mapsto> r\<lparr>state := ABORTED\<rparr>)\<rparr>;
                     st2 = wal_append (txid @ '' ABORT'') st1
                 in (Inr (200, JObj [(''ok'', JBool True), (''txid'', JStr txid),
                                     (''state'', JStr ''ABORTED'')]), st2)))"

definition post_precommit :: "json \<Rightarrow> participant \<Rightarrow> (error + response) \<times> participant" where
  "post_precommit body st =
     (case body_txid body of
        Inl e \<Rightarrow> (Inl e, st)
      | Inr txid \<Rightarrow>
          if txid = [] then (Inr (400, err_body ''txid required''), st)
          else
            (case TX st txid of
               None \<Rightarrow> (Inr (409, err_body ''precommit requires READY state''), st)
             | Some r \<Rightarrow>
                 if state r \<noteq> READY
                 then (Inr (409, err_body ''precommit requires READY state''), st)
                 else
                   let st1 = st\<lparr>TX := (TX st)(txid \<mapsto> r\<lparr>state := PRECOMMIT\<rparr>)\<rparr>;
                       st2 = wal_append (txid @ '' PRECOMMIT'') st1
                   in (Inr (200, JObj [(''ok'', JBool True), (''txid'', JStr txid),
                                       (''state'', JStr ''PRECOMMIT'')]), st2)))"

text \<open>
  \<open>Handler.do_POST\<close>: \<open>path\<close> is the request path and \<open>parsed\<close> the outcome of \<open>jload(raw)\<close>,
  \<open>None\<close> when the body is no JSON text.
\<close>

definition do_POST :: "string \<Rightarrow> json option \<Rightarrow> participant \<Rightarrow> (error + response) \<times> participant" where
  "do_POST path parsed st =
     (case parsed of
        None \<Rightarrow> (Inr (400, err_body ''invalid json''), st)
      | Some body \<Rightarrow>
          if path = ''/prepare'' then post_vote ''PREPARE'' body st
          else if path = ''/commit'' then post_commit body st
          else if path = ''/abort'' then post_abort body st
          else if path = ''/can_commit'' then post_vote ''CAN_COMMIT'' body st
          else if path = ''/precommit'' then post_precommit body st
          else (Inr (404, err_body ''not found''), st))"

subsection \<open>Replaying the log\<close>

text \<open>
  Iterating over the file opened in text mode: a line ends at a line feed or a carriage
  return. The lines are given without their terminator, and an empty line stands where
  two terminators meet or the text ends; \<open>wal_replay\<close> strips every line and skips the
  ones with fewer than two words, so neither changes what it does.
\<close>

fun file_lines :: "string \<Rightarrow> string list" where
  "file_lines [] = [[]]"
| "file_lines (c # cs) =
     (if c = CHR 0x0A \<or> c = CHR 0x0D then [] # file_lines cs
      else (case file_lines cs of
              [] \<Rightarrow> [[c]]
            | l # ls \<Rightarrow> (c # l) # ls))"

text \<open>The body of the loop of \<open>wal_replay\<close> for one line.\<close>

definition replay_line :: "(string \<Rightarrow> json option) \<Rightarrow> string \<Rightarrow> participant \<Rightarrow> error + participant" where
  "replay_line jload line st =
     (case py_split 2 (py_strip line) of
        txid # cmd # rest \<Rightarrow>
          if cmd = ''PREPARE'' \<or> cmd = ''CAN_COMMIT'' then
            (case (case rest of [] \<Rightarrow> [''YES'', ''{}''] | r # _ \<Rightarrow> py_split 1 r) of
               [vote, op_str] \<Rightarrow>
                 (case (if op_str \<noteq> [] then jload op_str else Some (JObj [])) of
                    None \<Rightarrow> Inl JSONDecodeError
                  | Some opv \<Rightarrow>
                      Inr (st\<lparr>TX := (TX st)(txid \<mapsto>
                             \<lparr>state = (if vote = ''YES'' then READY else ABORTED), op = opv\<rparr>)\<rparr>))
             | _ \<Rightarrow> Inl ValueError)
          else if cmd = ''COMMIT'' then
            (case TX st txid of
               None \<Rightarrow> Inr st
             | Some r \<Rightarrow>
                 if state r = READY \<or> state r = PRECOMMIT then
                   (case apply_op (op r) (kv st) of
                      Inl e \<Rightarrow> Inl e
                    | Inr store \<Rightarrow>
                        Inr (st\<lparr>kv := store, TX := (TX st)(txid \<mapsto> r\<lparr>state := COMMITTED\<rparr>)\<rparr>))
                 else Inr st)
          else if cmd = ''ABORT'' then
            (case TX st txid of
               None \<Rightarrow> Inr st
             | Some r \<Rightarrow> Inr (st\<lparr>TX := (TX st)(txid \<mapsto> r\<lparr>state := ABORTED\<rparr>)\<rparr>))
          else if cmd = ''PRECOMMIT'' then
            (case TX st txid of
               None \<Rightarrow> Inr st
             | Some r \<Rightarrow>
                 if state r = READY
                 then Inr (st\<lparr>TX := (TX st)(txid \<mapsto> r\<lparr>state := PRECOMMIT\<rparr>)\<rparr>)
                 else Inr st)
          else Inr st
      | _ \<Rightarrow> Inr st)"

fun replay_lines :: "(string \<Rightarrow> json option) \<Rightarrow> string list \<Rightarrow> participant \<Rightarrow> error + participant" where
  "replay_lines jload [] st = Inr st"
| "replay_lines jload (l # ls) st =
     (case replay_line jload l st of
        Inl e \<Rightarrow> Inl e
      | Inr st' \<Rightarrow> replay_lines jload ls st')"

definition wal_replay :: "(string \<Rightarrow> json option) \<Rightarrow> participant \<Rightarrow> error + participant" where
  "wal_replay jload st =
     (case WAL st of
        None \<Rightarrow> Inr st
      | Some f \<Rightarrow> replay_lines jload (file_lines f) st)"

text \<open>A process that has just started: empty tables, and the log file it finds.\<close>

definition fresh :: "string option \<Rightarrow> participant" where
  "fresh w = \<lparr>kv = Map.empty, TX = Map.empty, WAL = w\<rparr>"

text \<open>A live run: the requests are served one after the other; a request whose handler
  raises leaves the globals as they were.\<close>

fun serve :: "(string \<times> json option) list \<Rightarrow> participant \<Rightarrow> participant" where
  "serve [] st = st"
| "serve ((path, parsed) # reqs) st = serve reqs (snd (do_POST path parsed st))"

section \<open>The coordinator (\<open>coordinator.py\<close>)\<close>

text \<open>
  What \<open>urlopen\<close> does with a request is not decided by the coordinator: it gives a reply
  (a status and a body that \<open>jload\<close> accepts) or raises (time-out, refused connection, an
  error status, a body that is no JSON). The network is a parameter: the outcome of the
  \<open>k\<close>-th request made by the process, given its URL and payload.
\<close>

datatype outcome = Reply int json | Failed string

type_synonym network = "nat \<Rightarrow> string \<Rightarrow> json \<Rightarrow> outcome"

text \<open>The effects of the process on the outside, in the order they happen: a request
  sent, a \<open>time.sleep\<close> (in milliseconds), a line appended to the log.\<close>

datatype event = Post string json | Sleep nat | Append string

text \<open>
  A transaction record of the coordinator. A 2PC record has \<open>votes\<close> and a 3PC record has
  \<open>votes_can_commit\<close> and \<open>precommit_ok\<close>; the fields a record does not have are empty here.
  Dictionaries that are sent back as JSON keep their insertion order.
\<close>

record crec =
  ctxid :: string
  protocol :: string
  cstate :: string
  cop :: json
  votes :: "(string \<times> string) list"
  votes_can_commit :: "(string \<times> string) list"
  precommit_ok :: "(string \<times> string) list"
  decision :: "string option"
  participants :: "string list"

text \<open>The globals of the coordinator (\<open>cTX\<close> is its \<open>TX\<close>, \<open>cWAL\<close> the text of the file at
  \<open>WAL_PATH\<close>), the number of requests sent so far and the effects so far.\<close>

record coordinator =
  PARTICIPANTS :: "string list"
  cTX :: "string \<rightharpoonup> crec"
  cWAL :: string
  sent :: nat
  events :: "event list"

definition RETRIES :: nat where
  "RETRIES = 3"

definition post_json :: "network \<Rightarrow> string \<Rightarrow> json \<Rightarrow> coordinator \<Rightarrow> (int \<times> json) \<times> coordinator" where
  "post_json net url payload st =
     ((case net (sent st) url payload of
         Reply status body \<Rightarrow> (status, body)
       | Failed e \<Rightarrow> (500, JObj [(''error'', JStr e)])),
      st\<lparr>sent := sent st + 1, events := events st @ [Post url payload]\<rparr>)"

definition sleep :: "nat \<Rightarrow> coordinator \<Rightarrow> coordinator" where
  "sleep ms st = st\<lparr>events := events st @ [Sleep ms]\<rparr>"

definition coord_wal_append :: "string \<Rightarrow> coordinator \<Rightarrow> coordinator" where
  "coord_wal_append line st =
     st\<lparr>cWAL := cWAL st @ py_rstrip_chars [CHR 0x0A] line @ [CHR 0x0A],
        events := events st @ [Append line]\<rparr>"

text \<open>\<open>TX[txid][...] = ...\<close> on the record the running operation created.\<close>

definition tx_update :: "string \<Rightarrow> (crec \<Rightarrow> crec) \<Rightarrow> coordinator \<Rightarrow> coordinator" where
  "tx_update txid f st =
     (case cTX st txid of
        None \<Rightarrow> st
      | Some r \<Rightarrow> st\<lparr>cTX := (cTX st)(txid \<mapsto> f r)\<rparr>)"

subsection \<open>Recovery\<close>

definition coord_replay_line :: "string \<Rightarrow> coordinator \<Rightarrow> coordinator" where
  "coord_replay_line line st =
     (case py_split 2 (py_strip line) of
        txid # dec # rest \<Rightarrow>
          (case cTX st txid of
             None \<Rightarrow> st
           | Some r \<Rightarrow>
               if decision r = None
               then st\<lparr>cTX := (cTX st)(txid \<mapsto> r\<lparr>decision := Some dec, cstate := dec @ ''_SENT''\<rparr>)\<rparr>
               else st)
      | _ \<Rightarrow> st)"

definition coord_wal_replay :: "coordinator \<Rightarrow> coordinator" where
  "coord_wal_replay st = fold coord_replay_line (file_lines (cWAL st)) st"

subsection \<open>Propagating the decision\<close>

text \<open>One pass of the inner loop over the participants.\<close>

fun propagate_round :: "network \<Rightarrow> string \<Rightarrow> string \<Rightarrow> string list \<Rightarrow> bool \<Rightarrow> coordinator \<Rightarrow> bool \<times> coordinator" where
  "propagate_round net endpoint txid [] success st = (success, st)"
| "propagate_round net endpoint txid (p # ps) success st =
     (case post_json net (py_rstrip_chars ''/'' p @ endpoint) (JObj [(''txid'', JStr txid)]) st of
        ((status, resp), st1) \<Rightarrow>
          propagate_round net endpoint txid ps (if status \<noteq> 200 then False else success) st1)"

text \<open>The outer loop: \<open>attempt\<close> is the number of the attempt and the first argument the
  number of attempts left; the back-off \<open>0.5 * attempt\<close> seconds is in milliseconds.\<close>

fun propagate_attempts :: "nat \<Rightarrow> nat \<Rightarrow> network \<Rightarrow> string \<Rightarrow> string \<Rightarrow> coordinator \<Rightarrow> coordinator" where
  "propagate_attempts 0 attempt net endpoint txid st = st"
| "propagate_attempts (Suc left) attempt net endpoint txid st =
     (case propagate_round net endpoint txid (PARTICIPANTS st) True st of
        (success, st1) \<Rightarrow>
          if success then st1
          else propagate_attempts left (attempt + 1) net endpoint txid (sleep (500 * attempt) st1))"

definition propagate_decision :: "network \<Rightarrow> string \<Rightarrow> string \<Rightarrow> coordinator \<Rightarrow> coordinator" where
  "propagate_decision net txid dec st =
     propagate_attempts RETRIES 1 net (if dec = ''COMMIT'' then ''/commit'' else ''/abort'') txid st"

subsection \<open>Two-phase commit\<close>

definition two_pc_begin :: "string \<Rightarrow> json \<Rightarrow> coordinator \<Rightarrow> coordinator" where
  "two_pc_begin txid opv st =
     st\<lparr>cTX := (cTX st)(txid \<mapsto>
          \<lparr>ctxid = txid, protocol = ''2PC'', cstate = ''PREPARE_SENT'', cop = opv,
           votes = [], votes_can_commit = [], precommit_ok = [], decision = None,
           participants = PARTICIPANTS st\<rparr>)\<rparr>"

text \<open>The loop that collects the votes; \<open>resp.get\<close> raises when the body of a reply is
  not a dictionary.\<close>

fun prepare_loop :: "network \<Rightarrow> string \<Rightarrow> json \<Rightarrow> string list \<Rightarrow> (string \<times> string) list \<times> bool \<Rightarrow> coordinator
    \<Rightarrow> (error + (string \<times> string) list \<times> bool) \<times> coordinator" where
  "prepare_loop net txid opv [] acc st = (Inr acc, st)"
| "prepare_loop net txid opv (p # ps) (vs, all_yes) st =
     (case post_json net (py_rstrip_chars ''/'' p @ ''/prepare'')
             (JObj [(''txid'', JStr txid), (''op'', opv)]) st of
        ((status, resp), st1) \<Rightarrow>
          (case py_get resp ''vote'' (JStr ''NO'') of
             Inl e \<Rightarrow> (Inl e, st1)
           | Inr v \<Rightarrow>
               let vote = py_upper (py_str v)
               in prepare_loop net txid opv ps
                    (AList.update p vote vs, (if vote \<noteq> ''YES'' then False else all_yes)) st1))"

definition two_pc :: "network \<Rightarrow> string \<Rightarrow> json \<Rightarrow> coordinator \<Rightarrow> (error + json) \<times> coordinator" where
  "two_pc net txid opv st =
     (case prepare_loop net txid opv (PARTICIPANTS st) ([], True) (two_pc_begin txid opv st) of
        (Inl e, st2) \<Rightarrow> (Inl e, st2)
      | (Inr (vs, all_yes), st2) \<Rightarrow>
          let dec = (if all_yes then ''COMMIT'' else ''ABORT'');
              st3 = sleep 15000 st2;
              st4 = tx_update txid
                      (\<lambda>r. r\<lparr>votes := vs, decision := Some dec, cstate := dec @ ''_SENT''\<rparr>) st3;
              st5 = coord_wal_append (txid @ '' '' @ dec) st4;
              st6 = propagate_decision net txid dec st5
          in (Inr (JObj [(''ok'', JBool True), (''txid'', JStr txid), (''decision'', JStr dec)]),
              st6))"

subsection \<open>Three-phase commit\<close>

text \<open>
  \<open>three_pc\<close> calls a function \<open>log\<close>. The module neither defines nor imports this name,
  so the call raises \<open>NameError\<close>, whatever its argument.
\<close>

definition log :: "string \<Rightarrow> error + unit" where
  "log msg = Inl NameError"

definition three_pc_begin :: "string \<Rightarrow> json \<Rightarrow> coordinator \<Rightarrow> coordinator" where
  "three_pc_begin txid opv st =
     coord_wal_append (txid @ '' START_3PC '' @ jdump opv)
       (st\<lparr>cTX := (cTX st)(txid \<mapsto>
            \<lparr>ctxid = txid, protocol = ''3PC'', cstate = ''CAN_COMMIT_SENT'', cop = opv,
             votes = [], votes_can_commit = [], precommit_ok = [], decision = None,
             participants = PARTICIPANTS st\<rparr>)\<rparr>)"

text \<open>
  Phase 1. The body of the \<open>try\<close> is \<open>attempt\<close>; when it raises, the handler records
  \<open>NO_ERROR\<close> and calls \<open>log\<close> in its turn, outside any \<open>try\<close>.
\<close>

fun can_commit_loop :: "network \<Rightarrow> string \<Rightarrow> json \<Rightarrow> string list \<Rightarrow> (string \<times> string) list \<times> bool \<Rightarrow> coordinator
    \<Rightarrow> (error + (string \<times> string) list \<times> bool) \<times> coordinator" where
  "can_commit_loop net txid opv [] acc st = (Inr acc, st)"
| "can_commit_loop net txid opv (p # ps) (vs, all_yes) st =
     (case post_json net (py_rstrip_chars ''/'' p @ ''/can_commit'')
             (JObj [(''txid'', JStr txid), (''op'', opv)]) st of
        ((status, resp), st1) \<Rightarrow>
          let attempt =
                (case py_get resp ''vote'' (JStr ''NO'') of
                   Inl e \<Rightarrow> Inl e
                 | Inr v \<Rightarrow>
                     let vote = py_upper (py_str v)
                     in (case log (''CanCommit '' @ p @ '' '' @ vote) of
                           Inl e \<Rightarrow> Inl e
                         | Inr u \<Rightarrow>
                             Inr (AList.update p vote vs,
                                  (if vote \<noteq> ''YES'' then False else all_yes))))
          in (case attempt of
                Inr acc \<Rightarrow> can_commit_loop net txid opv ps acc st1
              | Inl e \<Rightarrow>
                  (case log (''CanCommit '' @ p) of
                     Inl e' \<Rightarrow> (Inl e', st1)
                   | Inr u \<Rightarrow>
                       can_commit_loop net txid opv ps
                         (AList.update p ''NO_ERROR'' vs, False) st1)))"

text \<open>Phase 2, with the same shape. The only call of the \<open>try\<close> that can raise is
  \<open>log\<close>, and \<open>str(e)\<close> is then the text of its \<open>NameError\<close>.\<close>

fun precommit_loop :: "network \<Rightarrow> string \<Rightarrow> string list \<Rightarrow> (string \<times> string) list \<times> bool \<Rightarrow> coordinator
    \<Rightarrow> (error + (string \<times> string) list \<times> bool) \<times> coordinator" where
  "precommit_loop net txid [] acc st = (Inr acc, st)"
| "precommit_loop net txid (p # ps) (rs, success) st =
     (case post_json net (py_rstrip_chars ''/'' p @ ''/precommit'')
             (JObj [(''txid'', JStr txid)]) st of
        ((status, resp), st1) \<Rightarrow>
          let acc1 = (if status = 200 then (AList.update p ''OK'' rs, success)
                      else (AList.update p (''ERROR_'' @ show_int status) rs, False))
          in (case log (''PreCommit '' @ p @ '' '' @ show_int status) of
                Inr u \<Rightarrow> precommit_loop net txid ps acc1 st1
              | Inl e \<Rightarrow>
                  (case log (''PreCommit '' @ p) of
                     Inl e' \<Rightarrow> (Inl e', st1)
                   | Inr u \<Rightarrow>
                       precommit_loop net txid ps
                         (AList.update p (''EXCEPTION_name '' @ [CHR 0x27] @ ''log'' @ [CHR 0x27]
                                          @ '' is not defined'') (fst acc1), False) st1)))"

definition dict_json :: "(string \<times> string) list \<Rightarrow> json" where
  "dict_json d = JObj (map (\<lambda>(k, v). (k, JStr v)) d)"

definition three_pc :: "network \<Rightarrow> string \<Rightarrow> json \<Rightarrow> coordinator \<Rightarrow> (error + json) \<times> coordinator" where
  "three_pc net txid opv st =
     (case can_commit_loop net txid opv (PARTICIPANTS st) ([], True) (three_pc_begin txid opv st) of
        (Inl e, st2) \<Rightarrow> (Inl e, st2)
      | (Inr (vs, all_yes), st2) \<Rightarrow>
          let st3 = tx_update txid (\<lambda>r. r\<lparr>votes_can_commit := vs\<rparr>) st2 in
          if \<not> all_yes then
            let st4 = tx_update txid
                        (\<lambda>r. r\<lparr>decision := Some ''ABORT'', cstate := ''ABORT_SENT''\<rparr>) st3;
                st5 = coord_wal_append (txid @ '' ABORT after CanCommit'') st4;
                st6 = propagate_decision net txid ''ABORT'' st5
            in (case log (''3PC '' @ txid @ '' ABORT'') of
                  Inl e \<Rightarrow> (Inl e, st6)
                | Inr u \<Rightarrow>
                    (Inr (JObj [(''ok'', JBool True), (''txid'', JStr txid),
                                (''decision'', JStr ''ABORT'')]), st6))
          else
            (case precommit_loop net txid (PARTICIPANTS st3) ([], True) st3 of
               (Inl e, st4) \<Rightarrow> (Inl e, st4)
             | (Inr (rs, precommit_success), st4) \<Rightarrow>
                 let st5 = tx_update txid (\<lambda>r. r\<lparr>precommit_ok := rs\<rparr>) st4;
                     dec = (if \<not> precommit_success then ''ABORT'' else ''COMMIT'');
                     st6 = tx_update txid
                             (\<lambda>r. r\<lparr>decision := Some dec, cstate := dec @ ''_SENT''\<rparr>) st5;
                     st7 = coord_wal_append (txid @ '' '' @ dec @ '' after PreCommit'') st6
                 in (case log (''3PC '' @ txid @ '' '' @ dec) of
                       Inl e \<Rightarrow> (Inl e, st7)
                     | Inr u \<Rightarrow>
                         let st8 = propagate_decision net txid dec st7
                         in (Inr (JObj [(''ok'', JBool True), (''txid'', JStr txid),
                                        (''decision'', JStr dec),
                                        (''can_commit_votes'', dict_json vs),
                                        (''precommit_responses'', dict_json rs)]), st8))))"

section \<open>Vocabulary of the properties\<close>

text \<open>
  Every record that can still be committed holds an operation that passed \<open>validate_op\<close>.
  The handlers establish this and keep it: a record becomes \<open>READY\<close> only with the
  operation that was just validated, and \<open>PRECOMMIT\<close> only from \<open>READY\<close>.
\<close>

definition tx_valid :: "participant \<Rightarrow> bool" where
  "tx_valid st \<longleftrightarrow>
     (\<forall>t r. TX st t = Some r \<longrightarrow> state r = READY \<or> state r = PRECOMMIT
        \<longrightarrow> validate_op (op r) = Inr True)"

text \<open>The txid a request names, and the requests that vote on, or abort, the
  transaction \<open>t\<close>.\<close>

definition req_txid :: "string \<times> json option \<Rightarrow> string option" where
  "req_txid rq =
     (case snd rq of
        None \<Rightarrow> None
      | Some body \<Rightarrow> (case body_txid body of Inl e \<Rightarrow> None | Inr t \<Rightarrow> Some t))"

definition votes_on :: "string \<Rightarrow> string \<times> json option \<Rightarrow> bool" where
  "votes_on t rq \<longleftrightarrow> (fst rq = ''/prepare'' \<or> fst rq = ''/can_commit'') \<and> req_txid rq = Some t"

definition aborts :: "string \<Rightarrow> string \<times> json option \<Rightarrow> bool" where
  "aborts t rq \<longleftrightarrow> fst rq = ''/abort'' \<and> req_txid rq = Some t"

text \<open>Values for the examples: the operation \<open>SET x=5\<close>, the same with its type in lower
  case, an operation that is no \<open>SET\<close>, request bodies that name a txid, and states of a
  participant that keeps no log and knows the one transaction \<open>TX1\<close>.\<close>

definition set_x_5 :: json where
  "set_x_5 = JObj [(''type'', JStr ''SET''), (''key'', JStr ''x''), (''value'', JStr ''5'')]"



definition keyless_set :: json where
  "keyless_set = JObj [(''type'', JStr ''SET'')]"

definition vote_body :: "string \<Rightarrow> json \<Rightarrow> json" where
  "vote_body t opv = JObj [(''txid'', JStr t), (''op'', opv)]"

definition txid_body :: "string \<Rightarrow> json" where
  "txid_body t = JObj [(''txid'', JStr t)]"

definition ready_state :: participant where
  "ready_state = \<lparr>kv = Map.empty, TX = [''TX1'' \<mapsto> \<lparr>state = READY, op = set_x_5\<rparr>], WAL = None\<rparr>"

definition committed_state :: participant where
  "committed_state =
     \<lparr>kv = [''x'' \<mapsto> ''5''], TX = [''TX1'' \<mapsto> \<lparr>state = COMMITTED, op = set_x_5\<rparr>],
      WAL = None\<rparr>"

definition aborted_state :: participant where
  "aborted_state =
     \<lparr>kv = Map.empty, TX = [''TX1'' \<mapsto> \<lparr>state = ABORTED, op = set_x_5\<rparr>], WAL = None\<rparr>"

text \<open>
  The vote the coordinator reads from the outcome of a request, as \<open>post_json\<close> and the
  loop of \<open>two_pc\<close> do: the field \<open>vote\<close> of the body in upper case, \<open>NO\<close> when the body
  has none, and the body \<open>{"error": ...}\<close> when the request failed.
\<close>

definition reply_vote :: "outcome \<Rightarrow> error + string" where
  "reply_vote out =
     (case py_get (case out of Reply status body \<Rightarrow> body
                              | Failed e \<Rightarrow> JObj [(''error'', JStr e)]) ''vote'' (JStr ''NO'') of
        Inl e \<Rightarrow> Inl e
      | Inr v \<Rightarrow> Inr (py_upper (py_str v)))"

text \<open>The votes of the participants \<open>ps\<close>, contacted in this order from request number
  \<open>k\<close> on, one vote per contact.\<close>

fun prepare_votes :: "network \<Rightarrow> string \<Rightarrow> json \<Rightarrow> nat \<Rightarrow> string list \<Rightarrow> (error + string) list" where
  "prepare_votes net txid opv k [] = []"
| "prepare_votes net txid opv k (p # ps) =
     reply_vote (net k (py_rstrip_chars ''/'' p @ ''/prepare'')
                   (JObj [(''txid'', JStr txid), (''op'', opv)]))
     # prepare_votes net txid opv (Suc k) ps"

text \<open>A network in which every participant answers \<open>YES\<close> and acknowledges, and a
  coordinator that has just started with one participant.\<close>

definition yes_network :: network where
  "yes_network k url payload = Reply 200 (JObj [(''ok'', JBool True), (''vote'', JStr ''YES'')])"

definition one_participant :: coordinator where
  "one_participant =
     \<lparr>PARTICIPANTS = [''http://10.0.1.12:8001''], cTX = Map.empty, cWAL = [], sent = 0,
      events = []\<rparr>"

text \<open>
  For the recovery of the participant: a text without whitespace, the requests whose
  txid is such a text, and the requests whose operation, when it is a dictionary, \<open>jload\<close>
  reads back from the text \<open>jdump\<close> gives for it.
\<close>

definition no_space :: "string \<Rightarrow> bool" where
  "no_space t \<longleftrightarrow> list_all (\<lambda>c. \<not> py_isspace c) t"

definition plain_txid :: "string \<times> json option \<Rightarrow> bool" where
  "plain_txid rq \<longleftrightarrow> (case req_txid rq of None \<Rightarrow> True | Some t \<Rightarrow> no_space t)"

definition reads_back :: "(string \<Rightarrow> json option) \<Rightarrow> string \<times> json option \<Rightarrow> bool" where
  "reads_back jload rq \<longleftrightarrow>
     (case snd rq of
        None \<Rightarrow> True
      | Some body \<Rightarrow>
          (case py_get body ''op'' JNull of
             Inl e \<Rightarrow> True
           | Inr opv \<Rightarrow> isinstance_dict opv \<longrightarrow> jload (jdump opv) = Some opv))"

text \<open>
  What a request leaves behind, seen from recovery: nothing at all, or one more line in
  the log, without a line break in it, whose replay on the tables before the request
  gives the tables after it.
\<close>

definition logged :: "(string \<Rightarrow> json option) \<Rightarrow> participant \<Rightarrow> participant \<Rightarrow> bool" where
  "logged jload st st' \<longleftrightarrow>
     st' = st \<or>
     (\<exists>f l. WAL st = Some f \<and> CHR 0x0A \<notin> set l \<and> CHR 0x0D \<notin> set l \<and>
            WAL st' = Some (f @ l @ [CHR 0x0A]) \<and>
            (\<forall>w. replay_line jload l (st\<lparr>WAL := w\<rparr>) = Inr (st'\<lparr>WAL := w\<rparr>)))"

text \<open>A \<open>jload\<close> that reads the text of \<open>SET x=5\<close> back, for the examples.\<close>

definition load_set_x_5 :: "string \<Rightarrow> json option" where
  "load_set_x_5 s = (if s = jdump set_x_5 then Some set_x_5 else None)"

text \<open>
  For the commit after a restart: a txid that holds two carriage returns and, between
  them, the text of a line of the log; a \<open>jload\<close> that reads the two operations of the
  example back; and the state in which the participant restarts from the log of the one
  request \<open>/prepare\<close> with this txid.
\<close>

definition line_txid :: string where
  "line_txid = ''A'' @ [CHR 0x0D] @ ''TX1 PREPARE YES '' @ jdump keyless_set @ [CHR 0x0D] @ ''B''"

definition load_two :: "string \<Rightarrow> json option" where
  "load_two s =
     (if s = jdump set_x_5 then Some set_x_5
      else if s = jdump keyless_set then Some keyless_set
      else None)"

definition restarted_state :: participant where
  "restarted_state =
     \<lparr>kv = Map.empty,
      TX = [''TX1'' \<mapsto> \<lparr>state = READY, op = keyless_set\<rparr>,
            ''B'' \<mapsto> \<lparr>state = READY, op = set_x_5\<rparr>],
      WAL = Some (line_txid @ '' PREPARE YES '' @ jdump set_x_5 @ [CHR 0x0A])\<rparr>"

section \<open>Unfolding the definitions on concrete values\<close>

lemmas str_eval = py_strip_def py_rstrip_def py_isspace_def py_upper_def upper_char_def
  dict_get_def

lemmas handler_eval = do_POST_def post_vote_def post_commit_def post_abort_def
  post_precommit_def body_txid_def validate_op_def apply_op_def wal_append_def fresh_def
  err_body_def Let_def

lemmas coord_eval = two_pc_def two_pc_begin_def post_json_def sleep_def coord_wal_append_def
  tx_update_def propagate_decision_def RETRIES_def py_rstrip_chars_def Let_def

text \<open>
  \<open>py_upper\<close> on text with letters beyond ASCII: \<open>0xE9\<close> becomes \<open>0xC9\<close>, the sharp s
  (\<open>0xDF\<close>) becomes \<open>SS\<close>, and the division sign \<open>0xF7\<close> stays.
\<close>

lemma py_upper_example:
  "py_upper (''set yes'' @ [CHR 0xE9, CHR 0xDF, CHR 0xF7, CHR 0xFE]) =
   ''SET YES'' @ [CHR 0xC9] @ ''SS'' @ [CHR 0xF7, CHR 0xDE]"
  by code_simp

section \<open>Properties of the coordinator\<close>

subsection \<open>Two-phase commit: the votes and the decision\<close>

lemma sent_post_json [simp]:
  "sent (snd (post_json net url payload st)) = Suc (sent st)"
  by (simp add: post_json_def)

lemma fst_post_json:
  "snd (fst (post_json net url payload st)) =
     (case net (sent st) url payload of Reply status body \<Rightarrow> body
        | Failed e \<Rightarrow> JObj [(''error'', JStr e)])"
  by (simp add: post_json_def split: outcome.splits)

lemma py_get_error: "py_get v k d = Inl e \<Longrightarrow> e = AttributeError"
  by (cases v) simp_all

text \<open>
  A request that failed (time-out, refused connection, error status) gives the vote
  \<open>NO\<close>.
\<close>

lemma reply_vote_Failed: "reply_vote (Failed e) = Inr ''NO''"
  by (simp add: reply_vote_def dict_get_def py_upper_def upper_char_def)

lemma prepare_loop_votes:
  "map_sum id snd (fst (prepare_loop net txid opv ps (vs, b) st)) =
     (if Inl AttributeError \<in> set (prepare_votes net txid opv (sent st) ps)
      then Inl AttributeError
      else Inr (b \<and> list_all (\<lambda>v. v = Inr ''YES'') (prepare_votes net txid opv (sent st) ps)))"
proof (induction ps arbitrary: vs b st)
  case Nil
  show ?case by simp
next
  case (Cons p ps)
  let ?url = "py_rstrip_chars ''/'' p @ ''/prepare''"
  let ?payload = "JObj [(''txid'', JStr txid), (''op'', opv)]"
  obtain status resp st1 where pj: "post_json net ?url ?payload st = ((status, resp), st1)"
    by (metis surj_pair)
  have resp: "resp = (case net (sent st) ?url ?payload of Reply status body \<Rightarrow> body
        | Failed e \<Rightarrow> JObj [(''error'', JStr e)])"
    using fst_post_json [of net ?url ?payload st] pj by simp
  have s1: "sent st1 = Suc (sent st)"
    using sent_post_json [of net ?url ?payload st] pj by simp
  show ?case
  proof (cases "py_get resp ''vote'' (JStr ''NO'')")
    case (Inl e)
    then have e: "e = AttributeError" by (rule py_get_error)
    have rv: "reply_vote (net (sent st) ?url ?payload) = Inl AttributeError"
      using Inl e by (simp add: reply_vote_def resp [symmetric])
    show ?thesis
      by (simp add: pj Inl e rv)
  next
    case (Inr v)
    have rv: "reply_vote (net (sent st) ?url ?payload) = Inr (py_upper (py_str v))"
      using Inr by (simp add: reply_vote_def resp [symmetric])
    have step: "prepare_loop net txid opv (p # ps) (vs, b) st =
        prepare_loop net txid opv ps
          (AList.update p (py_upper (py_str v)) vs,
           (if py_upper (py_str v) \<noteq> ''YES'' then False else b)) st1"
      by (simp add: pj Inr Let_def)
    show ?thesis
      unfolding step Cons.IH s1
      by (cases "py_upper (py_str v) = ''YES''") (simp_all add: rv)
  qed
qed

lemma two_pc_unanimity:
  "map_sum id (\<lambda>r. dict_get (case r of JObj kvs \<Rightarrow> kvs | _ \<Rightarrow> []) ''decision'' JNull)
       (fst (two_pc net txid opv st)) =
     (if Inl AttributeError \<in> set (prepare_votes net txid opv (sent st) (PARTICIPANTS st))
      then Inl AttributeError
      else Inr (JStr (if list_all (\<lambda>v. v = Inr ''YES'')
                            (prepare_votes net txid opv (sent st) (PARTICIPANTS st))
                      then ''COMMIT'' else ''ABORT'')))"
proof -
  let ?st0 = "two_pc_begin txid opv st"
  have s0: "sent ?st0 = sent st" "PARTICIPANTS ?st0 = PARTICIPANTS st"
    by (simp_all add: two_pc_begin_def)
  obtain r st2 where pl: "prepare_loop net txid opv (PARTICIPANTS st) ([], True) ?st0 = (r, st2)"
    by (metis surj_pair)
  have v: "map_sum id snd r =
     (if Inl AttributeError \<in> set (prepare_votes net txid opv (sent st) (PARTICIPANTS st))
      then Inl AttributeError
      else Inr (list_all (\<lambda>v. v = Inr ''YES'') (prepare_votes net txid opv (sent st) (PARTICIPANTS st))))"
    using prepare_loop_votes [where net = net and txid = txid and opv = opv
      and ps = "PARTICIPANTS st" and vs = "[]" and b = True and st = ?st0]
    by (simp add: pl s0)
  show ?thesis
  proof (cases r)
    case (Inl e)
    with v show ?thesis
      by (simp add: two_pc_def pl split: if_splits)
  next
    case (Inr acc)
    obtain vs all_yes where acc: "acc = (vs, all_yes)" by (cases acc)
    from v Inr acc show ?thesis
      by (simp add: two_pc_def pl Let_def dict_get_def split: if_splits)
  qed
qed

subsection \<open>The delay before the decision is logged\<close>

lemma events_post_json [simp]:
  "events (snd (post_json net url payload st)) = events st @ [Post url payload]"
  by (simp add: post_json_def)

lemma events_propagate_round:
  "\<exists>es. events (snd (propagate_round net ep txid ps b st)) = events st @ es"
proof (induction ps arbitrary: b st)
  case Nil
  show ?case by simp
next
  case (Cons p ps)
  obtain status resp st1 where pj:
    "post_json net (py_rstrip_chars ''/'' p @ ep) (JObj [(''txid'', JStr txid)]) st
      = ((status, resp), st1)"
    by (metis surj_pair)
  have e1: "events st1 = events st @ [Post (py_rstrip_chars ''/'' p @ ep) (JObj [(''txid'', JStr txid)])]"
    using events_post_json [of net "py_rstrip_chars ''/'' p @ ep" "JObj [(''txid'', JStr txid)]" st] pj
    by simp
  from Cons.IH [where b = "if status \<noteq> 200 then False else b" and st = st1]
  obtain es where
    "events (snd (propagate_round net ep txid ps (if status \<noteq> 200 then False else b) st1))
       = events st1 @ es"
    by blast
  then show ?case
    by (simp add: pj e1)
qed

lemma events_propagate_attempts:
  "\<exists>es. events (propagate_attempts left a net ep txid st) = events st @ es"
proof (induction left arbitrary: a st)
  case 0
  show ?case by simp
next
  case (Suc left)
  obtain ok st1 where pr: "propagate_round net ep txid (PARTICIPANTS st) True st = (ok, st1)"
    by (metis surj_pair)
  from events_propagate_round [of net ep txid "PARTICIPANTS st" True st] pr
  obtain es1 where e1: "events st1 = events st @ es1" by auto
  show ?case
  proof (cases ok)
    case True
    then show ?thesis by (simp add: pr e1)
  next
    case False
    from Suc.IH [where a = "a + 1" and st = "sleep (500 * a) st1"]
    obtain es2 where "events (propagate_attempts left (a + 1) net ep txid (sleep (500 * a) st1))
        = events (sleep (500 * a) st1) @ es2"
      by blast
    then show ?thesis
      using False by (simp add: pr e1 sleep_def)
  qed
qed

lemma events_tx_update [simp]: "events (tx_update txid f st) = events st"
  by (simp add: tx_update_def split: option.splits)

text \<open>
  Claim C4, as the code has it. \<open>two_pc\<close> has no parameter for a delay. On every run
  in which the votes are collected, whatever they are, the effects that follow the last
  \<open>/prepare\<close> request are a sleep of 15 seconds (15000 ms) and then the line of the log
  that holds the decision; the requests that propagate the decision come after.
\<close>

theorem two_pc_fixed_delay:
  assumes "prepare_loop net txid opv (PARTICIPANTS st) ([], True) (two_pc_begin txid opv st)
             = (Inr (vs, all_yes), st2)"
  shows "\<exists>rest. events (snd (two_pc net txid opv st)) =
           events st2 @ [Sleep 15000, Append (txid @ '' '' @ (if all_yes then ''COMMIT'' else ''ABORT''))]
             @ rest"
proof -
  let ?dec = "if all_yes then ''COMMIT'' else ''ABORT''"
  let ?st5 = "coord_wal_append (txid @ '' '' @ ?dec)
     (tx_update txid (\<lambda>r. r\<lparr>votes := vs, decision := Some ?dec, cstate := ?dec @ ''_SENT''\<rparr>)
        (sleep 15000 st2))"
  have e5: "events ?st5 = events st2 @ [Sleep 15000, Append (txid @ '' '' @ ?dec)]"
    by (simp add: coord_wal_append_def sleep_def)
  have two: "snd (two_pc net txid opv st) = propagate_decision net txid ?dec ?st5"
    by (simp add: two_pc_def assms Let_def)
  obtain es where "events (propagate_decision net txid ?dec ?st5) = events ?st5 @ es"
    unfolding propagate_decision_def using events_propagate_attempts by blast
  then show ?thesis
    unfolding two e5 by simp
qed

text \<open>
  The theorem on a run with one participant that votes \<open>YES\<close>.
\<close>

theorem two_pc_fixed_delay_witness:
  "\<exists>rest. events (snd (two_pc yes_network ''TX1'' set_x_5 one_participant)) =
     [Post ''http://10.0.1.12:8001/prepare'' (JObj [(''txid'', JStr ''TX1''), (''op'', set_x_5)])]
       @ [Sleep 15000, Append ''TX1 COMMIT''] @ rest"
proof -
  have pl: "prepare_loop yes_network ''TX1'' set_x_5 (PARTICIPANTS one_participant) ([], True)
              (two_pc_begin ''TX1'' set_x_5 one_participant)
      = (Inr ([(''http://10.0.1.12:8001'', ''YES'')], True),
         snd (prepare_loop yes_network ''TX1'' set_x_5 (PARTICIPANTS one_participant) ([], True)
                (two_pc_begin ''TX1'' set_x_5 one_participant)))"
    by (simp add: coord_eval str_eval yes_network_def one_participant_def set_x_5_def)
  have ev: "events (snd (prepare_loop yes_network ''TX1'' set_x_5 (PARTICIPANTS one_participant)
                ([], True) (two_pc_begin ''TX1'' set_x_5 one_participant)))
      = [Post ''http://10.0.1.12:8001/prepare'' (JObj [(''txid'', JStr ''TX1''), (''op'', set_x_5)])]"
    by (simp add: coord_eval str_eval yes_network_def one_participant_def set_x_5_def)
  from two_pc_fixed_delay [OF pl] show ?thesis
    unfolding ev by simp
qed

text \<open>
  Claim C4 states that the delay defaults to zero. A run of \<open>two_pc\<close> as the
  coordinator starts it, with one participant that votes \<open>YES\<close> and acknowledges the
  commit: the process sleeps 15 seconds between the vote and the line of the log.
\<close>

theorem two_pc_delay_counterexample:
  "events (snd (two_pc yes_network ''TX1'' set_x_5 one_participant)) =
     [Post ''http://10.0.1.12:8001/prepare'' (JObj [(''txid'', JStr ''TX1''), (''op'', set_x_5)]),
      Sleep 15000,
      Append ''TX1 COMMIT'',
      Post ''http://10.0.1.12:8001/commit'' (JObj [(''txid'', JStr ''TX1'')])]"
  by (simp add: coord_eval str_eval numeral_3_eq_3 yes_network_def one_participant_def
      set_x_5_def)

subsection \<open>Recovery of the coordinator\<close>

lemma coord_replay_line_empty:
  "cTX st = Map.empty \<Longrightarrow> coord_replay_line l st = st"
  by (simp add: coord_replay_line_def split: list.splits)

lemma fold_coord_replay_empty:
  "cTX st = Map.empty \<Longrightarrow> fold coord_replay_line ls st = st"
  by (induction ls) (simp_all add: coord_replay_line_empty)

text \<open>
  Claim C3 asks that recovery on a fresh process, whose table is empty, rebuilds a record
  carrying the decision that the log holds for a txid. \<open>wal_replay\<close> only ever writes to a
  record it finds in the table: started on an empty table it changes nothing, whatever
  the log holds, and the table stays empty.
\<close>

theorem coord_wal_replay_fresh_noop:
  "coord_wal_replay (st\<lparr>cTX := Map.empty\<rparr>) = st\<lparr>cTX := Map.empty\<rparr>"
  by (simp add: coord_wal_replay_def fold_coord_replay_empty)

subsection \<open>Three-phase commit never decides\<close>

lemma can_commit_loop_raises:
  "can_commit_loop net txid opv (p # ps) (vs, b) st =
     (Inl NameError, snd (post_json net (py_rstrip_chars ''/'' p @ ''/can_commit'')
                             (JObj [(''txid'', JStr txid), (''op'', opv)]) st))"
  by (simp add: log_def split: prod.splits sum.splits)

lemma PARTICIPANTS_three_pc_begin [simp]:
  "PARTICIPANTS (three_pc_begin txid opv st) = PARTICIPANTS st"
  by (simp add: three_pc_begin_def coord_wal_append_def)

lemma PARTICIPANTS_tx_update [simp]:
  "PARTICIPANTS (tx_update txid f st) = PARTICIPANTS st"
  by (simp add: tx_update_def split: option.splits)

lemma cTX_post_json [simp]:
  "cTX (snd (post_json net url payload st)) = cTX st"
  by (simp add: post_json_def)

lemma cTX_three_pc_begin:
  "cTX (three_pc_begin txid opv st) txid =
     Some \<lparr>ctxid = txid, protocol = ''3PC'', cstate = ''CAN_COMMIT_SENT'', cop = opv,
           votes = [], votes_can_commit = [], precommit_ok = [], decision = None,
           participants = PARTICIPANTS st\<rparr>"
  by (simp add: three_pc_begin_def coord_wal_append_def)

text \<open>
  \<open>three_pc\<close> never returns: with no participant it raises at the call of \<open>log\<close> that
  follows the line of the log, and with participants at the first reply.
\<close>

lemma three_pc_raises:
  "fst (three_pc net txid opv st) = Inl NameError"
proof (cases "PARTICIPANTS st")
  case Nil
  then show ?thesis
    by (simp add: three_pc_def log_def Let_def)
next
  case (Cons p ps)
  then show ?thesis
    by (simp add: three_pc_def can_commit_loop_raises del: can_commit_loop.simps)
qed

text \<open>
  Claim C1 asks that in the CanCommit phase of 3PC, as in 2PC, any vote other than
  \<open>YES\<close> forces the decision \<open>ABORT\<close>. With at least one participant, \<open>three_pc\<close> raises
  \<open>NameError\<close> at the first call of \<open>log\<close>, right after the first reply, whatever the
  participants answer: the decision of the record is still unset when it stops. (For
  \<open>two_pc\<close> the claim holds, see \<open>two_pc_unanimity\<close>.)
\<close>

theorem three_pc_no_decision:
  "fst (three_pc net txid opv (st\<lparr>PARTICIPANTS := p # ps\<rparr>)) = Inl NameError \<and>
   map_option decision (cTX (snd (three_pc net txid opv (st\<lparr>PARTICIPANTS := p # ps\<rparr>))) txid)
     = Some None"
  by (simp add: three_pc_def can_commit_loop_raises cTX_three_pc_begin
      del: can_commit_loop.simps)

section \<open>Properties of the participant\<close>

lemma TX_wal_append [simp]: "TX (wal_append l st) = TX st"
  by (simp add: wal_append_def split: option.splits)

lemma kv_wal_append [simp]: "kv (wal_append l st) = kv st"
  by (simp add: wal_append_def split: option.splits)

lemma validate_op_dict:
  "validate_op (JObj kvs) =
     Inr (py_upper (py_str (dict_get kvs ''type'' (JStr []))) = ''SET'' \<and>
          py_strip (py_str (dict_get kvs ''key'' (JStr []))) \<noteq> [])"
  by (simp add: validate_op_def)

lemma validate_op_apply_op:
  assumes "validate_op opv = Inr True"
  shows "\<exists>store'. apply_op opv store = Inr store'"
proof (cases opv)
  case (JObj kvs)
  with assms have t: "py_upper (py_str (dict_get kvs ''type'' (JStr []))) = ''SET''"
    and k: "py_strip (py_str (dict_get kvs ''key'' (JStr []))) \<noteq> []"
    by (simp_all add: validate_op_dict)
  from k obtain kj where "map_of kvs ''key'' = Some kj"
    by (cases "map_of kvs ''key''") (auto simp: dict_get_def py_strip_def py_rstrip_def)
  with t JObj show ?thesis
    by (simp add: apply_op_def)
qed (use assms in \<open>simp_all add: validate_op_def\<close>)

subsection \<open>Applying an operation\<close>

text \<open>
  Claim C6: applying the same operation to the key-value store twice gives the same
  store as applying it once, for every operation (a \<open>SET\<close> of any key and value among
  them) and every starting store; an operation that raises does so both times.
\<close>

theorem apply_op_idempotent:
  "(case apply_op opv store of Inl e \<Rightarrow> Inl e | Inr store' \<Rightarrow> apply_op opv store')
     = apply_op opv store"
  by (simp add: apply_op_def split: sum.splits)

subsection \<open>Voting: \<open>/prepare\<close> and \<open>/can_commit\<close>\<close>

lemma post_vote_ok:
  assumes "body_txid body = Inr txid" and "txid \<noteq> []"
    and "py_get body ''op'' JNull = Inr (JObj kvs)"
  shows "post_vote cmd body st =
     (let valid = (py_upper (py_str (dict_get kvs ''type'' (JStr []))) = ''SET'' \<and>
                   py_strip (py_str (dict_get kvs ''key'' (JStr []))) \<noteq> []);
          vote = (if valid then ''YES'' else ''NO'')
      in (Inr (200, JObj [(''ok'', JBool True), (''vote'', JStr vote),
                          (''state'', JStr (state_name (if valid then READY else ABORTED)))]),
          wal_append (txid @ '' '' @ cmd @ '' '' @ vote @ '' '' @ jdump (JObj kvs))
            (st\<lparr>TX := (TX st)(txid \<mapsto> \<lparr>state = (if valid then READY else ABORTED),
                                        op = JObj kvs\<rparr>)\<rparr>)))"
  using assms by (simp add: post_vote_def validate_op_dict Let_def)







subsection \<open>Commit\<close>

text \<open>
  \<open>/commit\<close> in every state, for a request that names a txid. With no record, or a
  record that is neither \<open>READY\<close> nor \<open>PRECOMMIT\<close>, the reply is the conflict error
  (status 409) and nothing changes. With a record that is \<open>READY\<close> or \<open>PRECOMMIT\<close>: a
  \<open>SET\<close> with a key writes the text of the value under the text of the key, any other
  dictionary leaves the store as it is, and in both cases the record becomes
  \<open>COMMITTED\<close> and the line \<open>txid COMMIT\<close> is appended to the log; a \<open>SET\<close> without a
  key raises \<open>KeyError\<close> and an operation that is not a dictionary raises
  \<open>AttributeError\<close>, with no reply and no change.
\<close>

lemma commit_cases:
  assumes "body_txid body = Inr txid" and "txid \<noteq> []"
  shows
    "(TX st txid = None \<longrightarrow>
        do_POST ''/commit'' (Some body) st =
          (Inr (409, err_body ''commit requires READY/PRECOMMIT''), st)) \<and>
     (\<forall>r. TX st txid = Some r \<longrightarrow> state r \<noteq> READY \<longrightarrow> state r \<noteq> PRECOMMIT \<longrightarrow>
        do_POST ''/commit'' (Some body) st =
          (Inr (409, err_body ''commit requires READY/PRECOMMIT''), st)) \<and>
     (\<forall>r kvs k. TX st txid = Some r \<longrightarrow> state r = READY \<or> state r = PRECOMMIT \<longrightarrow>
        op r = JObj kvs \<longrightarrow> py_upper (py_str (dict_get kvs ''type'' (JStr []))) = ''SET'' \<longrightarrow>
        map_of kvs ''key'' = Some k \<longrightarrow>
        do_POST ''/commit'' (Some body) st =
          (Inr (200, JObj [(''ok'', JBool True), (''txid'', JStr txid),
                           (''state'', JStr ''COMMITTED'')]),
           wal_append (txid @ '' COMMIT'')
             (st\<lparr>kv := (kv st)(py_str k \<mapsto> py_str (dict_get kvs ''value'' (JStr []))),
                 TX := (TX st)(txid \<mapsto> r\<lparr>state := COMMITTED\<rparr>)\<rparr>))) \<and>
     (\<forall>r kvs. TX st txid = Some r \<longrightarrow> state r = READY \<or> state r = PRECOMMIT \<longrightarrow>
        op r = JObj kvs \<longrightarrow> py_upper (py_str (dict_get kvs ''type'' (JStr []))) \<noteq> ''SET'' \<longrightarrow>
        do_POST ''/commit'' (Some body) st =
          (Inr (200, JObj [(''ok'', JBool True), (''txid'', JStr txid),
                           (''state'', JStr ''COMMITTED'')]),
           wal_append (txid @ '' COMMIT'')
             (st\<lparr>kv := kv st, TX := (TX st)(txid \<mapsto> r\<lparr>state := COMMITTED\<rparr>)\<rparr>))) \<and>
     (\<forall>r kvs. TX st txid = Some r \<longrightarrow> state r = READY \<or> state r = PRECOMMIT \<longrightarrow>
        op r = JObj kvs \<longrightarrow> py_upper (py_str (dict_get kvs ''type'' (JStr []))) = ''SET'' \<longrightarrow>
        map_of kvs ''key'' = None \<longrightarrow>
        do_POST ''/commit'' (Some body) st = (Inl KeyError, st)) \<and>
     (\<forall>r. TX st txid = Some r \<longrightarrow> state r = READY \<or> state r = PRECOMMIT \<longrightarrow>
        \<not> isinstance_dict (op r) \<longrightarrow>
        do_POST ''/commit'' (Some body) st = (Inl AttributeError, st))"
proof (intro conjI allI impI)
  fix r
  assume "TX st txid = Some r" "state r = READY \<or> state r = PRECOMMIT"
    "\<not> isinstance_dict (op r)"
  then show "do_POST ''/commit'' (Some body) st = (Inl AttributeError, st)"
    using assms by (cases "op r") (auto simp: do_POST_def post_commit_def apply_op_def)
qed (use assms in \<open>auto simp: do_POST_def post_commit_def apply_op_def Let_def\<close>)

text \<open>
  The invariant \<open>tx_valid\<close>, every \<open>READY\<close> or \<open>PRECOMMIT\<close> record holds an operation
  that \<open>validate_op\<close> accepts, holds when the process starts with empty tables, and every
  request keeps it. (\<open>wal_replay\<close> does not establish it, see
  \<open>commit_raises_after_restart\<close> below.)
\<close>

lemma tx_valid_fresh: "tx_valid (fresh w)"
  by (simp add: tx_valid_def fresh_def)

lemma tx_valid_post_vote:
  assumes "tx_valid st"
  shows "tx_valid (snd (post_vote cmd body st))"
proof (cases "body_txid body")
  case (Inl e)
  then show ?thesis using assms by (simp add: post_vote_def)
next
  case (Inr txid)
  show ?thesis
  proof (cases "py_get body ''op'' JNull")
    case (Inl e)
    then show ?thesis using assms Inr by (simp add: post_vote_def)
  next
    case opv: (Inr opv)
    show ?thesis
    proof (cases opv)
      case (JObj kvs)
      show ?thesis
      proof (cases "txid = []")
        case True
        then show ?thesis using assms Inr opv by (simp add: post_vote_def)
      next
        case False
        then show ?thesis
          using assms Inr opv JObj
          by (auto simp: post_vote_def validate_op_dict Let_def tx_valid_def)
      qed
    qed (use assms Inr opv in \<open>simp_all add: post_vote_def\<close>)
  qed
qed

lemma tx_valid_post_commit:
  assumes "tx_valid st"
  shows "tx_valid (snd (post_commit body st))"
  using assms
  by (auto simp: post_commit_def Let_def tx_valid_def split: sum.splits option.splits)

lemma tx_valid_post_abort:
  assumes "tx_valid st"
  shows "tx_valid (snd (post_abort body st))"
  using assms
  by (auto simp: post_abort_def Let_def tx_valid_def split: sum.splits option.splits)

lemma tx_valid_post_precommit:
  assumes "tx_valid st"
  shows "tx_valid (snd (post_precommit body st))"
  using assms
  by (auto simp: post_precommit_def Let_def tx_valid_def split: sum.splits option.splits)

lemma tx_valid_do_POST:
  "tx_valid st \<Longrightarrow> tx_valid (snd (do_POST path parsed st))"
  by (simp add: do_POST_def tx_valid_post_vote tx_valid_post_commit tx_valid_post_abort
      tx_valid_post_precommit split: option.splits)

lemma tx_valid_serve:
  "tx_valid st \<Longrightarrow> tx_valid (serve reqs st)"
  by (induction reqs arbitrary: st) (auto simp: tx_valid_do_POST)

text \<open>
  Under the invariant, \<open>/commit\<close> succeeds exactly when the record exists and its state
  is \<open>READY\<close> or \<open>PRECOMMIT\<close>, and is refused with the conflict error otherwise.
\<close>

lemma commit_rule:
  assumes "body_txid body = Inr txid" and "txid \<noteq> []" and "tx_valid st"
  shows
    "(TX st txid = None \<longrightarrow>
        do_POST ''/commit'' (Some body) st =
          (Inr (409, err_body ''commit requires READY/PRECOMMIT''), st)) \<and>
     (\<forall>r. TX st txid = Some r \<longrightarrow> state r \<noteq> READY \<longrightarrow> state r \<noteq> PRECOMMIT \<longrightarrow>
        do_POST ''/commit'' (Some body) st =
          (Inr (409, err_body ''commit requires READY/PRECOMMIT''), st)) \<and>
     (\<forall>r. TX st txid = Some r \<longrightarrow> state r = READY \<or> state r = PRECOMMIT \<longrightarrow>
        (\<exists>store. apply_op (op r) (kv st) = Inr store \<and>
           do_POST ''/commit'' (Some body) st =
             (Inr (200, JObj [(''ok'', JBool True), (''txid'', JStr txid),
                              (''state'', JStr ''COMMITTED'')]),
              wal_append (txid @ '' COMMIT'')
                (st\<lparr>kv := store, TX := (TX st)(txid \<mapsto> r\<lparr>state := COMMITTED\<rparr>)\<rparr>))))"
proof (intro conjI allI impI)
  show "do_POST ''/commit'' (Some body) st =
          (Inr (409, err_body ''commit requires READY/PRECOMMIT''), st)"
    if "TX st txid = None"
    using that assms(1,2) by (simp add: do_POST_def post_commit_def)
next
  fix r
  show "do_POST ''/commit'' (Some body) st =
          (Inr (409, err_body ''commit requires READY/PRECOMMIT''), st)"
    if "TX st txid = Some r" "state r \<noteq> READY" "state r \<noteq> PRECOMMIT"
    using that assms(1,2) by (simp add: do_POST_def post_commit_def)
next
  fix r
  assume r: "TX st txid = Some r" and s: "state r = READY \<or> state r = PRECOMMIT"
  from assms(3) r s have "validate_op (op r) = Inr True"
    unfolding tx_valid_def by blast
  then obtain store where a: "apply_op (op r) (kv st) = Inr store"
    using validate_op_apply_op by blast
  show "\<exists>store. apply_op (op r) (kv st) = Inr store \<and>
           do_POST ''/commit'' (Some body) st =
             (Inr (200, JObj [(''ok'', JBool True), (''txid'', JStr txid),
                              (''state'', JStr ''COMMITTED'')]),
              wal_append (txid @ '' COMMIT'')
                (st\<lparr>kv := store, TX := (TX st)(txid \<mapsto> r\<lparr>state := COMMITTED\<rparr>)\<rparr>))"
    using r s a assms(1,2) by (auto simp: do_POST_def post_commit_def Let_def)
qed

text \<open>
  A record that is \<open>READY\<close>, a txid that is unknown, and a record that is already
  \<open>COMMITTED\<close>.
\<close>

lemma commit_rule_example:
  "tx_valid ready_state \<and>
   do_POST ''/commit'' (Some (txid_body ''TX1'')) ready_state =
     (Inr (200, JObj [(''ok'', JBool True), (''txid'', JStr ''TX1''),
                      (''state'', JStr ''COMMITTED'')]), committed_state) \<and>
   do_POST ''/commit'' (Some (txid_body ''TX2'')) ready_state =
     (Inr (409, err_body ''commit requires READY/PRECOMMIT''), ready_state) \<and>
   do_POST ''/commit'' (Some (txid_body ''TX1'')) committed_state =
     (Inr (409, err_body ''commit requires READY/PRECOMMIT''), committed_state)"
proof -
  have v: "tx_valid ready_state"
    by (simp add: tx_valid_def ready_state_def set_x_5_def validate_op_dict str_eval)
  have v': "tx_valid committed_state"
    by (simp add: tx_valid_def committed_state_def)
  have b1: "body_txid (txid_body ''TX1'') = Inr ''TX1''"
    by (simp add: body_txid_def txid_body_def str_eval)
  have b2: "body_txid (txid_body ''TX2'') = Inr ''TX2''"
    by (simp add: body_txid_def txid_body_def str_eval)
  have a: "apply_op set_x_5 Map.empty = Inr [''x'' \<mapsto> ''5'']"
    by (simp add: apply_op_def set_x_5_def str_eval)
  have r: "TX ready_state ''TX1'' = Some \<lparr>state = READY, op = set_x_5\<rparr>"
    "TX ready_state ''TX2'' = None" "kv ready_state = Map.empty"
    "TX committed_state ''TX1'' = Some \<lparr>state = COMMITTED, op = set_x_5\<rparr>"
    by (simp_all add: ready_state_def committed_state_def)
  have c1: "do_POST ''/commit'' (Some (txid_body ''TX1'')) ready_state =
     (Inr (200, JObj [(''ok'', JBool True), (''txid'', JStr ''TX1''),
                      (''state'', JStr ''COMMITTED'')]), committed_state)"
    using commit_rule [OF b1 _ v] r a
    by (auto simp: wal_append_def ready_state_def committed_state_def)
  have c2: "do_POST ''/commit'' (Some (txid_body ''TX2'')) ready_state =
     (Inr (409, err_body ''commit requires READY/PRECOMMIT''), ready_state)"
    using commit_rule [OF b2 _ v] r by simp
  have c3: "do_POST ''/commit'' (Some (txid_body ''TX1'')) committed_state =
     (Inr (409, err_body ''commit requires READY/PRECOMMIT''), committed_state)"
    using commit_rule [OF b1 _ v'] r by simp
  from v c1 c2 c3 show ?thesis by simp
qed

subsection \<open>Abort\<close>

text \<open>
  Claim C8, as the code has it. For a request that names a txid with no record,
  \<open>/abort\<close> replies with status 409, the status of the conflict errors of \<open>/commit\<close> and
  \<open>/precommit\<close>, and the message \<open>no such tx\<close>, and changes nothing. When the record
  exists, whatever its state, it becomes \<open>ABORTED\<close> and the line \<open>txid ABORT\<close> is appended
  to the log.
\<close>

theorem abort_rule:
  assumes "body_txid body = Inr txid" and "txid \<noteq> []"
  shows
    "(TX st txid = None \<longrightarrow>
        do_POST ''/abort'' (Some body) st = (Inr (409, err_body ''no such tx''), st)) \<and>
     (\<forall>r. TX st txid = Some r \<longrightarrow>
        do_POST ''/abort'' (Some body) st =
          (Inr (200, JObj [(''ok'', JBool True), (''txid'', JStr txid),
                           (''state'', JStr ''ABORTED'')]),
           wal_append (txid @ '' ABORT'')
             (st\<lparr>TX := (TX st)(txid \<mapsto> r\<lparr>state := ABORTED\<rparr>)\<rparr>)))"
  using assms by (simp add: do_POST_def post_abort_def Let_def)

text \<open>
  The theorem on a txid that is unknown and on a record that is \<open>READY\<close>.
\<close>

theorem abort_rule_witness:
  "do_POST ''/abort'' (Some (txid_body ''TX2'')) ready_state =
     (Inr (409, err_body ''no such tx''), ready_state) \<and>
   do_POST ''/abort'' (Some (txid_body ''TX1'')) ready_state =
     (Inr (200, JObj [(''ok'', JBool True), (''txid'', JStr ''TX1''),
                      (''state'', JStr ''ABORTED'')]), aborted_state)"
proof -
  have b1: "body_txid (txid_body ''TX1'') = Inr ''TX1''"
    by (simp add: body_txid_def txid_body_def str_eval)
  have b2: "body_txid (txid_body ''TX2'') = Inr ''TX2''"
    by (simp add: body_txid_def txid_body_def str_eval)
  have r: "TX ready_state ''TX1'' = Some \<lparr>state = READY, op = set_x_5\<rparr>"
    "TX ready_state ''TX2'' = None"
    by (simp_all add: ready_state_def)
  have c1: "do_POST ''/abort'' (Some (txid_body ''TX2'')) ready_state =
     (Inr (409, err_body ''no such tx''), ready_state)"
    using abort_rule [OF b2, of ready_state] r by simp
  have c2: "do_POST ''/abort'' (Some (txid_body ''TX1'')) ready_state =
     (Inr (200, JObj [(''ok'', JBool True), (''txid'', JStr ''TX1''),
                      (''state'', JStr ''ABORTED'')]), aborted_state)"
    using abort_rule [OF b1, of ready_state] r
    by (auto simp: wal_append_def ready_state_def aborted_state_def)
  from c1 c2 show ?thesis by simp
qed

text \<open>
  Claim C8 states that the error for an unknown txid is a not-found error, distinct
  from a conflict error. On a process that has just started, \<open>/abort\<close> of an unknown
  txid has the status 409 that \<open>/commit\<close> gives for its conflict; the status 404 is what
  the handler gives for a path it does not know.
\<close>

theorem abort_unknown_counterexample:
  "fst (do_POST ''/abort'' (Some (txid_body ''TX9'')) (fresh None)) =
     Inr (409, err_body ''no such tx'') \<and>
   fst (do_POST ''/commit'' (Some (txid_body ''TX9'')) (fresh None)) =
     Inr (409, err_body ''commit requires READY/PRECOMMIT'') \<and>
   fst (do_POST ''/status'' (Some (txid_body ''TX9'')) (fresh None)) =
     Inr (404, err_body ''not found'')"
  by (simp add: handler_eval str_eval txid_body_def)

subsection \<open>Terminal states\<close>

lemma step_terminal:
  assumes "TX st t = Some r" and "state r = ABORTED \<or> state r = COMMITTED"
    and "\<not> votes_on t rq" and "state r = COMMITTED \<longrightarrow> \<not> aborts t rq"
  shows "TX (snd (do_POST (fst rq) (snd rq) st)) t = Some r"
proof (cases "snd rq")
  case None
  then show ?thesis using assms(1) by (simp add: do_POST_def)
next
  case (Some body)
  show ?thesis
  proof (cases "body_txid body")
    case (Inl e)
    then show ?thesis
      using Some assms(1)
      by (simp add: do_POST_def post_vote_def post_commit_def post_abort_def post_precommit_def)
  next
    case (Inr txid)
    show ?thesis
    proof (cases "txid = t")
      case True
      then show ?thesis
        using Some Inr assms
        by (auto simp: do_POST_def post_vote_def post_commit_def post_abort_def
            post_precommit_def votes_on_def aborts_def req_txid_def Let_def)
    next
      case False
      then show ?thesis
        using Some Inr assms(1)
        by (auto simp: do_POST_def post_vote_def post_commit_def post_abort_def
            post_precommit_def Let_def split: sum.splits option.splits)
    qed
  qed
qed

text \<open>
  Claim C2, as the code has it. A record that is \<open>ABORTED\<close> or \<open>COMMITTED\<close> stays as
  it is through every sequence of requests that holds no \<open>/prepare\<close> or \<open>/can_commit\<close>
  for its txid and, when it is \<open>COMMITTED\<close>, no \<open>/abort\<close> for its txid: \<open>/commit\<close> and
  \<open>/precommit\<close> are refused, \<open>/abort\<close> leaves an \<open>ABORTED\<close> record \<open>ABORTED\<close>, and
  requests for other transactions do not touch it.
\<close>

theorem terminal_stable:
  assumes "TX st t = Some r" and "state r = ABORTED \<or> state r = COMMITTED"
    and "\<forall>rq \<in> set reqs. \<not> votes_on t rq"
    and "state r = COMMITTED \<longrightarrow> (\<forall>rq \<in> set reqs. \<not> aborts t rq)"
  shows "TX (serve reqs st) t = Some r"
  using assms
proof (induction reqs arbitrary: st)
  case Nil
  then show ?case by simp
next
  case (Cons rq reqs)
  obtain path parsed where rq: "rq = (path, parsed)" by (cases rq)
  have "TX (snd (do_POST (fst rq) (snd rq) st)) t = Some r"
    using Cons.prems by (intro step_terminal) auto
  then have "TX (serve reqs (snd (do_POST path parsed st))) t = Some r"
    using Cons.prems rq by (intro Cons.IH) auto
  then show ?case by (simp add: rq)
qed

text \<open>
  The theorem on a \<open>COMMITTED\<close> record and on an \<open>ABORTED\<close> record.
\<close>

theorem terminal_stable_witness:
  "TX (serve [(''/commit'', Some (txid_body ''TX1'')),
              (''/precommit'', Some (txid_body ''TX1'')),
              (''/prepare'', Some (vote_body ''TX2'' set_x_5)),
              (''/abort'', Some (txid_body ''TX2''))] committed_state) ''TX1'' =
     Some \<lparr>state = COMMITTED, op = set_x_5\<rparr> \<and>
   TX (serve [(''/abort'', Some (txid_body ''TX1'')),
              (''/commit'', Some (txid_body ''TX1'')),
              (''/precommit'', Some (txid_body ''TX1''))] aborted_state) ''TX1'' =
     Some \<lparr>state = ABORTED, op = set_x_5\<rparr>"
proof -
  have r: "TX committed_state ''TX1'' = Some \<lparr>state = COMMITTED, op = set_x_5\<rparr>"
    "TX aborted_state ''TX1'' = Some \<lparr>state = ABORTED, op = set_x_5\<rparr>"
    by (simp_all add: committed_state_def aborted_state_def)
  have c1: "TX (serve [(''/commit'', Some (txid_body ''TX1'')),
              (''/precommit'', Some (txid_body ''TX1'')),
              (''/prepare'', Some (vote_body ''TX2'' set_x_5)),
              (''/abort'', Some (txid_body ''TX2''))] committed_state) ''TX1'' =
     Some \<lparr>state = COMMITTED, op = set_x_5\<rparr>"
    by (rule terminal_stable [OF r(1)])
       (simp_all add: votes_on_def aborts_def req_txid_def body_txid_def vote_body_def
          txid_body_def str_eval)
  have c2: "TX (serve [(''/abort'', Some (txid_body ''TX1'')),
              (''/commit'', Some (txid_body ''TX1'')),
              (''/precommit'', Some (txid_body ''TX1''))] aborted_state) ''TX1'' =
     Some \<lparr>state = ABORTED, op = set_x_5\<rparr>"
    by (rule terminal_stable [OF r(2)])
       (simp_all add: votes_on_def aborts_def req_txid_def body_txid_def vote_body_def
          txid_body_def str_eval)
  from c1 c2 show ?thesis by simp
qed

text \<open>
  Claim C2 states that no operation changes a record that is \<open>COMMITTED\<close> or
  \<open>ABORTED\<close>. The record of \<open>TX1\<close>, prepared and committed, is \<open>COMMITTED\<close>; a
  following \<open>/abort\<close> makes it \<open>ABORTED\<close>, and a following \<open>/prepare\<close> makes it
  \<open>READY\<close>.
\<close>

theorem terminal_counterexample:
  "serve [(''/prepare'', Some (vote_body ''TX1'' set_x_5)),
          (''/commit'', Some (txid_body ''TX1''))] (fresh None) = committed_state \<and>
   map_option state (TX committed_state ''TX1'') = Some COMMITTED \<and>
   map_option state (TX (serve [(''/abort'', Some (txid_body ''TX1''))] committed_state) ''TX1'')
     = Some ABORTED \<and>
   map_option state (TX (serve [(''/prepare'', Some (vote_body ''TX1'' set_x_5))] committed_state)
     ''TX1'') = Some READY"
  by (simp add: handler_eval str_eval vote_body_def txid_body_def set_x_5_def
      committed_state_def)

subsection \<open>Recovery of the participant: splitting a line of the log\<close>

lemma py_split_skip:
  "py_isspace c \<Longrightarrow> py_split n (c # s) = py_split n s"
  by (subst (1 2) py_split.simps) simp

lemma no_space_dropWhile:
  "no_space w \<Longrightarrow> dropWhile (\<lambda>c. \<not> py_isspace c) (w @ s) = dropWhile (\<lambda>c. \<not> py_isspace c) s"
  by (induction w) (simp_all add: no_space_def)

lemma no_space_takeWhile:
  "no_space w \<Longrightarrow> takeWhile (\<lambda>c. \<not> py_isspace c) (w @ s) = w @ takeWhile (\<lambda>c. \<not> py_isspace c) s"
  by (induction w) (simp_all add: no_space_def)

lemma py_split_word:
  assumes "w \<noteq> []" and "no_space w" and "py_isspace c"
  shows "py_split (Suc n) (w @ c # s) = w # py_split n s"
proof -
  obtain a w' where w: "w = a # w'" using assms(1) by (cases w) auto
  have a: "\<not> py_isspace a" using assms(2) w by (simp add: no_space_def)
  have d: "dropWhile py_isspace (w @ c # s) = w @ c # s"
    using a w by simp
  have t: "takeWhile (\<lambda>c. \<not> py_isspace c) (w @ c # s) = w"
    using no_space_takeWhile [OF assms(2), of "c # s"] assms(3) by simp
  have r: "dropWhile (\<lambda>c. \<not> py_isspace c) (w @ c # s) = c # s"
    using no_space_dropWhile [OF assms(2), of "c # s"] assms(3) by simp
  have ne: "w @ c # s \<noteq> []" by simp
  show ?thesis
    by (subst py_split.simps) (simp add: d t r Let_def py_split_skip [OF assms(3)] del: append_Cons)
qed

lemma py_split_word_end:
  assumes "w \<noteq> []" and "no_space w"
  shows "py_split (Suc n) w = [w]"
proof -
  obtain a w' where w: "w = a # w'" using assms(1) by (cases w) auto
  have a: "\<not> py_isspace a" using assms(2) w by (simp add: no_space_def)
  have d: "dropWhile py_isspace w = w" using a w by simp
  have t: "takeWhile (\<lambda>c. \<not> py_isspace c) w = w"
    using no_space_takeWhile [OF assms(2), of "[]"] by simp
  have r: "dropWhile (\<lambda>c. \<not> py_isspace c) w = []"
    using no_space_dropWhile [OF assms(2), of "[]"] by simp
  have e: "py_split n [] = []" by (subst py_split.simps) simp
  show ?thesis
    using assms(1) by (subst py_split.simps) (simp add: d t r e Let_def)
qed

lemma py_split_rest:
  assumes "s \<noteq> []" and "\<not> py_isspace (hd s)"
  shows "py_split 0 s = [s]"
proof -
  have "dropWhile py_isspace s = s" using assms by (cases s) auto
  then show ?thesis using assms(1) by (subst py_split.simps) (simp add: Let_def)
qed

lemma py_strip_id:
  assumes "s \<noteq> []" and "\<not> py_isspace (hd s)" and "\<not> py_isspace (last s)"
  shows "py_strip s = s"
proof -
  have "dropWhile py_isspace (rev s) = rev s"
    using assms(1,3) by (cases "rev s") (auto simp: last_rev [symmetric] hd_rev)
  then have "py_rstrip s = s" by (simp add: py_rstrip_def)
  moreover have "dropWhile py_isspace s = s" using assms(1,2) by (cases s) auto
  ultimately show ?thesis by (simp add: py_strip_def)
qed

lemma no_space_no_break: "no_space t \<Longrightarrow> CHR 0x0A \<notin> set t \<and> CHR 0x0D \<notin> set t"
  by (auto simp: no_space_def list_all_iff py_isspace_def)

lemma py_rstrip_chars_id: "s \<noteq> [] \<Longrightarrow> last s \<notin> set cs \<Longrightarrow> py_rstrip_chars cs s = s"
  by (cases "rev s") (auto simp: py_rstrip_chars_def last_rev [symmetric] hd_rev)

lemma keyword_no_space:
  "no_space ''PREPARE''" "no_space ''CAN_COMMIT''" "no_space ''COMMIT''" "no_space ''ABORT''"
  "no_space ''PRECOMMIT''" "no_space ''YES''" "no_space ''NO''"
  by (simp_all add: no_space_def py_isspace_def)

lemma space_is_space: "py_isspace CHR '' ''"
  by (simp add: py_isspace_def)

text \<open>
  The line of a vote, split as \<open>wal_replay\<close> splits it: first into the txid, the
  command and the rest, then the rest into the vote and the text of the operation.
\<close>

lemma vote_line_split:
  assumes "txid \<noteq> []" and "no_space txid" and "no_space cmd" and "cmd \<noteq> []"
    and "vote = ''YES'' \<or> vote = ''NO''"
  shows "py_split 2 (py_strip (txid @ '' '' @ cmd @ '' '' @ vote @ '' '' @ jdump (JObj kvs))) =
           [txid, cmd, vote @ '' '' @ jdump (JObj kvs)]"
    and "py_split 1 (vote @ '' '' @ jdump (JObj kvs)) = [vote, jdump (JObj kvs)]"
proof -
  let ?j = "jdump (JObj kvs)"
  let ?l = "txid @ '' '' @ cmd @ '' '' @ vote @ '' '' @ ?j"
  have v: "no_space vote" "vote \<noteq> []"
    using assms(5) keyword_no_space by auto
  have j: "?j \<noteq> []" "hd ?j = CHR ''{''" "last ?j = CHR ''}''"
    by simp_all
  have nb: "\<not> py_isspace CHR ''{''" "\<not> py_isspace CHR ''}''"
    by (simp_all add: py_isspace_def)
  have j0: "py_split 0 ?j = [?j]"
    by (rule py_split_rest) (simp_all only: j nb not_False_eq_True)
  show s1: "py_split 1 (vote @ '' '' @ ?j) = [vote, ?j]"
    using py_split_word [OF v(2) v(1) space_is_space, of 0 ?j] j0 by simp
  have h: "\<not> py_isspace (hd ?l)"
    using assms(1,2) by (cases txid) (auto simp: no_space_def)
  have "last ?l = last ?j" by simp
  then have t: "\<not> py_isspace (last ?l)"
    using nb by (simp add: j)
  have strip: "py_strip ?l = ?l"
    by (rule py_strip_id [OF _ h t]) (use assms(1) in simp)
  have hv: "\<not> py_isspace (hd (vote @ '' '' @ ?j))"
    using assms(5) by (auto simp: py_isspace_def)
  have r0: "py_split 0 (vote @ '' '' @ ?j) = [vote @ '' '' @ ?j]"
    by (rule py_split_rest [OF _ hv]) (use v(2) in simp)
  have r1: "py_split 1 (cmd @ '' '' @ vote @ '' '' @ ?j) = [cmd, vote @ '' '' @ ?j]"
    using py_split_word [OF assms(4) assms(3) space_is_space, of 0 "vote @ '' '' @ ?j"] r0
    by simp
  have "py_split 2 ?l = [txid, cmd, vote @ '' '' @ ?j]"
    using py_split_word [OF assms(1) assms(2) space_is_space, of 1 "cmd @ '' '' @ vote @ '' '' @ ?j"] r1
    by (simp add: numeral_2_eq_2)
  then show "py_split 2 (py_strip ?l) = [txid, cmd, vote @ '' '' @ ?j]"
    by (simp only: strip)
qed

text \<open>
  The line of \<open>/commit\<close>, \<open>/abort\<close> or \<open>/precommit\<close>: the txid and the command.
\<close>

lemma word_line_split:
  assumes "txid \<noteq> []" and "no_space txid" and "no_space cmd" and "cmd \<noteq> []"
  shows "py_split 2 (py_strip (txid @ '' '' @ cmd)) = [txid, cmd]"
proof -
  let ?l = "txid @ '' '' @ cmd"
  have h: "\<not> py_isspace (hd ?l)"
    using assms(1,2) by (cases txid) (auto simp: no_space_def)
  have "last ?l = last cmd" using assms(4) by simp
  moreover have "\<not> py_isspace (last cmd)"
    using assms(3,4) by (cases cmd rule: rev_cases) (auto simp: no_space_def)
  ultimately have t: "\<not> py_isspace (last ?l)" by simp
  have strip: "py_strip ?l = ?l"
    by (rule py_strip_id [OF _ h t]) (use assms(1) in simp)
  have "py_split 2 ?l = [txid, cmd]"
    using py_split_word [OF assms(1) assms(2) space_is_space, of 1 cmd]
      py_split_word_end [OF assms(4) assms(3), of 0]
    by (simp add: numeral_2_eq_2)
  then show ?thesis by (simp only: strip)
qed

lemma word_line_facts:
  assumes "txid \<noteq> []" and "no_space txid" and "no_space cmd" and "cmd \<noteq> []"
  shows "CHR 0x0A \<notin> set (txid @ '' '' @ cmd) \<and> CHR 0x0D \<notin> set (txid @ '' '' @ cmd)"
    and "py_rstrip_chars [CHR 0x0A] (txid @ '' '' @ cmd) = txid @ '' '' @ cmd"
proof -
  show nb: "CHR 0x0A \<notin> set (txid @ '' '' @ cmd) \<and> CHR 0x0D \<notin> set (txid @ '' '' @ cmd)"
    using no_space_no_break [OF assms(2)] no_space_no_break [OF assms(3)] by auto
  have "last (txid @ '' '' @ cmd) \<in> set (txid @ '' '' @ cmd)"
    by (rule last_in_set) simp
  with nb have "last (txid @ '' '' @ cmd) \<notin> set [CHR 0x0A]"
    by (metis empty_iff empty_set set_ConsD)
  then show "py_rstrip_chars [CHR 0x0A] (txid @ '' '' @ cmd) = txid @ '' '' @ cmd"
    by (intro py_rstrip_chars_id) simp_all
qed

subsection \<open>Recovery of the participant: the text of \<open>jdump\<close> and the lines of the file\<close>

lemma digit_char_mem: "digit_char n \<in> set ''0123456789abcdef''"
  unfolding digit_char_def by (rule nth_mem) simp

lemma digit_char_no_break: "digit_char n \<noteq> CHR 0x0A \<and> digit_char n \<noteq> CHR 0x0D"
  using digit_char_mem [of n] by auto

lemma show_nat_no_break: "CHR 0x0A \<notin> set (show_nat n) \<and> CHR 0x0D \<notin> set (show_nat n)"
proof (induction n rule: show_nat.induct)
  case (1 n)
  show ?case
  proof (cases "n < 10")
    case True
    then show ?thesis
      using digit_char_no_break [of n] by (subst (1 2) show_nat.simps) auto
  next
    case False
    then show ?thesis
      using 1 digit_char_no_break [of "n mod 10"] by (subst (1 2) show_nat.simps) auto
  qed
qed

lemma show_int_no_break: "CHR 0x0A \<notin> set (show_int i) \<and> CHR 0x0D \<notin> set (show_int i)"
  using show_nat_no_break by (simp add: show_int_def)

lemma hex2_no_break: "CHR 0x0A \<notin> set (hex2 c) \<and> CHR 0x0D \<notin> set (hex2 c)"
  using digit_char_no_break [of "of_char c div 16"] digit_char_no_break [of "of_char c mod 16"]
  by (auto simp: hex2_def)

lemma json_char_no_break: "CHR 0x0A \<notin> set (json_char c) \<and> CHR 0x0D \<notin> set (json_char c)"
  using hex2_no_break [of c] by (auto simp: json_char_def Let_def)

lemma json_str_no_break: "CHR 0x0A \<notin> set (json_str s) \<and> CHR 0x0D \<notin> set (json_str s)"
  using json_char_no_break by (auto simp: json_str_def)

lemma set_py_join: "set (py_join sep xs) \<subseteq> set sep \<union> (\<Union>x\<in>set xs. set x)"
  by (induction sep xs rule: py_join.induct) auto

lemma jdump_no_break: "CHR 0x0A \<notin> set (jdump v) \<and> CHR 0x0D \<notin> set (jdump v)"
proof (induction v)
  case (JArr xs)
  have "set (py_join '', '' (map jdump xs)) \<subseteq> set '', '' \<union> (\<Union>x\<in>set (map jdump xs). set x)"
    by (rule set_py_join)
  with JArr show ?case by auto
next
  case (JObj kvs)
  define items where
    "items = map (\<lambda>(k, r). json_str k @ '': '' @ r) (map (map_prod id jdump) kvs)"
  have sub: "set (py_join '', '' items) \<subseteq> set '', '' \<union> (\<Union>x\<in>set items. set x)"
    by (rule set_py_join)
  have item: "CHR 0x0A \<notin> set x \<and> CHR 0x0D \<notin> set x" if "x \<in> set items" for x
  proof -
    from that obtain k v where kv: "(k, v) \<in> set kvs" and x: "x = json_str k @ '': '' @ jdump v"
      unfolding items_def by auto
    from kv have "CHR 0x0A \<notin> set (jdump v) \<and> CHR 0x0D \<notin> set (jdump v)"
      by (intro JObj) (auto simp: snds.simps)
    with json_str_no_break [of k] x show ?thesis by auto
  qed
  have "CHR 0x0A \<notin> set (py_join '', '' items) \<and> CHR 0x0D \<notin> set (py_join '', '' items)"
    using sub item by fastforce
  then show ?case
    unfolding items_def by simp
qed (simp_all add: show_int_no_break json_str_no_break)

lemma jdump_obj_ends:
  "jdump (JObj kvs) \<noteq> [] \<and> hd (jdump (JObj kvs)) = CHR ''{'' \<and> last (jdump (JObj kvs)) = CHR ''}''"
  by simp

lemma file_lines_line:
  "CHR 0x0A \<notin> set l \<Longrightarrow> CHR 0x0D \<notin> set l \<Longrightarrow>
   file_lines (l @ CHR 0x0A # rest) = l # file_lines rest"
proof (induction l)
  case Nil
  show ?case by simp
next
  case (Cons c l)
  then show ?case by (cases "file_lines (l @ CHR 0x0A # rest)") auto
qed

lemma file_lines_log:
  "\<forall>l\<in>set ls. CHR 0x0A \<notin> set l \<and> CHR 0x0D \<notin> set l \<Longrightarrow>
   file_lines (concat (map (\<lambda>l. l @ [CHR 0x0A]) ls)) = ls @ [[]]"
proof (induction ls)
  case Nil
  show ?case by simp
next
  case (Cons l ls)
  then have "file_lines (l @ CHR 0x0A # concat (map (\<lambda>l. l @ [CHR 0x0A]) ls))
      = l # file_lines (concat (map (\<lambda>l. l @ [CHR 0x0A]) ls))"
    by (intro file_lines_line) simp_all
  with Cons show ?case by simp
qed

lemma replay_lines_append:
  "replay_lines jload (xs @ ys) st =
     (case replay_lines jload xs st of Inl e \<Rightarrow> Inl e | Inr st' \<Rightarrow> replay_lines jload ys st')"
  by (induction xs arbitrary: st) (auto split: sum.splits)

lemma replay_line_empty: "replay_line jload [] st = Inr st"
proof -
  have "py_split 2 (py_strip []) = []"
    by (subst py_split.simps) (simp add: py_strip_def py_rstrip_def)
  then show ?thesis by (simp add: replay_line_def)
qed

subsection \<open>Recovery of the participant: each request and the line it writes\<close>

lemma post_vote_logged:
  assumes wal: "WAL st = Some f"
    and plain: "\<And>t. body_txid body = Inr t \<Longrightarrow> no_space t"
    and rb: "\<And>opv. py_get body ''op'' JNull = Inr opv \<Longrightarrow> isinstance_dict opv \<Longrightarrow>
               jload (jdump opv) = Some opv"
    and cmd: "cmd = ''PREPARE'' \<or> cmd = ''CAN_COMMIT''"
  shows "logged jload st (snd (post_vote cmd body st))"
proof (cases "body_txid body")
  case (Inl e)
  then show ?thesis by (simp add: post_vote_def logged_def)
next
  case (Inr txid)
  show ?thesis
  proof (cases "py_get body ''op'' JNull")
    case (Inl e)
    then show ?thesis using Inr by (simp add: post_vote_def logged_def)
  next
    case opv: (Inr opv)
    show ?thesis
    proof (cases "txid = [] \<or> \<not> isinstance_dict opv")
      case True
      then show ?thesis using Inr opv by (auto simp: post_vote_def logged_def)
    next
      case False
      then obtain kvs where kvs: "opv = JObj kvs" and ne: "txid \<noteq> []"
        by (cases opv) auto
      define valid where "valid \<longleftrightarrow>
         py_upper (py_str (dict_get kvs ''type'' (JStr []))) = ''SET'' \<and>
         py_strip (py_str (dict_get kvs ''key'' (JStr []))) \<noteq> []"
      define vote where "vote = (if valid then ''YES'' else ''NO'')"
      define l where "l = txid @ '' '' @ cmd @ '' '' @ vote @ '' '' @ jdump (JObj kvs)"
      define r where "r = \<lparr>state = (if valid then READY else ABORTED), op = JObj kvs\<rparr>"
      have st': "snd (post_vote cmd body st) = wal_append l (st\<lparr>TX := (TX st)(txid \<mapsto> r)\<rparr>)"
        using post_vote_ok [OF Inr ne opv [unfolded kvs], of cmd st]
        by (simp add: Let_def valid_def vote_def l_def r_def)
      have ns: "no_space txid" using plain Inr by simp
      have nc: "no_space cmd" "cmd \<noteq> []" using cmd keyword_no_space by auto
      have v: "vote = ''YES'' \<or> vote = ''NO''" by (simp add: vote_def)
      have vy: "vote = ''YES'' \<longleftrightarrow> valid" by (simp add: vote_def)
      have nb: "CHR 0x0A \<notin> set l \<and> CHR 0x0D \<notin> set l"
        using no_space_no_break [OF ns] no_space_no_break [OF nc(1)] jdump_no_break [of "JObj kvs"] v
        unfolding l_def by auto
      have lastl: "l \<noteq> []" "last l \<notin> set [CHR 0x0A]"
        unfolding l_def using ne by simp_all
      have rs: "py_rstrip_chars [CHR 0x0A] l = l"
        by (rule py_rstrip_chars_id [OF lastl])
      have w': "WAL (snd (post_vote cmd body st)) = Some (f @ l @ [CHR 0x0A])"
        by (simp add: st' wal_append_def wal rs)
      have split2: "py_split 2 (py_strip l) = [txid, cmd, vote @ '' '' @ jdump (JObj kvs)]"
        unfolding l_def by (rule vote_line_split(1) [OF ne ns nc v])
      have split1: "py_split 1 (vote @ '' '' @ jdump (JObj kvs)) = [vote, jdump (JObj kvs)]"
        by (rule vote_line_split(2) [OF ne ns nc v])
      have jl: "jload (jdump (JObj kvs)) = Some (JObj kvs)"
        using rb opv kvs by simp
      have jne: "jdump (JObj kvs) \<noteq> []" by simp
      have rep: "replay_line jload l (st\<lparr>WAL := w\<rparr>) = Inr ((snd (post_vote cmd body st))\<lparr>WAL := w\<rparr>)"
        for w
        unfolding replay_line_def split2
        using cmd
        by (simp only: list.case split1 jl jne if_True if_False option.case simp_thms)
           (simp add: st' wal_append_def wal r_def vy)
      show ?thesis
        unfolding logged_def using wal nb w' rep by blast
    qed
  qed
qed

lemma post_commit_logged:
  assumes wal: "WAL st = Some f"
    and plain: "\<And>t. body_txid body = Inr t \<Longrightarrow> no_space t"
  shows "logged jload st (snd (post_commit body st))"
proof (cases "body_txid body")
  case (Inl e)
  then show ?thesis by (simp add: post_commit_def logged_def)
next
  case (Inr txid)
  show ?thesis
  proof (cases "txid \<noteq> [] \<and> (\<exists>r store. TX st txid = Some r \<and> (state r = READY \<or> state r = PRECOMMIT)
                   \<and> apply_op (op r) (kv st) = Inr store)")
    case False
    then show ?thesis
      using Inr by (auto simp: post_commit_def logged_def split: option.splits sum.splits)
  next
    case True
    then obtain r store where ne: "txid \<noteq> []" and r: "TX st txid = Some r"
      and s: "state r = READY \<or> state r = PRECOMMIT"
      and a: "apply_op (op r) (kv st) = Inr store"
      by blast
    define l where "l = txid @ '' '' @ ''COMMIT''"
    have ns: "no_space txid" using plain Inr by simp
    have st': "snd (post_commit body st) =
        wal_append l (st\<lparr>kv := store, TX := (TX st)(txid \<mapsto> r\<lparr>state := COMMITTED\<rparr>)\<rparr>)"
      using Inr ne r s a by (auto simp: post_commit_def Let_def l_def)
    note lf = word_line_facts [OF ne ns keyword_no_space(3), folded l_def]
    have w': "WAL (snd (post_commit body st)) = Some (f @ l @ [CHR 0x0A])"
      using lf(2) by (simp add: st' wal_append_def wal)
    have split2: "py_split 2 (py_strip l) = [txid, ''COMMIT'']"
      unfolding l_def by (rule word_line_split [OF ne ns keyword_no_space(3)]) simp
    have rep: "replay_line jload l (st\<lparr>WAL := w\<rparr>) = Inr ((snd (post_commit body st))\<lparr>WAL := w\<rparr>)"
      for w
      unfolding replay_line_def split2
      using r s a by (auto simp: st' wal_append_def wal)
    show ?thesis
      unfolding logged_def using wal lf(1) w' rep by blast
  qed
qed

lemma post_abort_logged:
  assumes wal: "WAL st = Some f"
    and plain: "\<And>t. body_txid body = Inr t \<Longrightarrow> no_space t"
  shows "logged jload st (snd (post_abort body st))"
proof (cases "body_txid body")
  case (Inl e)
  then show ?thesis by (simp add: post_abort_def logged_def)
next
  case (Inr txid)
  show ?thesis
  proof (cases "txid \<noteq> [] \<and> (\<exists>r. TX st txid = Some r)")
    case False
    then show ?thesis
      using Inr by (auto simp: post_abort_def logged_def split: option.splits)
  next
    case True
    then obtain r where ne: "txid \<noteq> []" and r: "TX st txid = Some r"
      by blast
    define l where "l = txid @ '' '' @ ''ABORT''"
    have ns: "no_space txid" using plain Inr by simp
    have st': "snd (post_abort body st) =
        wal_append l (st\<lparr>TX := (TX st)(txid \<mapsto> r\<lparr>state := ABORTED\<rparr>)\<rparr>)"
      using Inr ne r by (auto simp: post_abort_def Let_def l_def)
    note lf = word_line_facts [OF ne ns keyword_no_space(4), folded l_def]
    have w': "WAL (snd (post_abort body st)) = Some (f @ l @ [CHR 0x0A])"
      using lf(2) by (simp add: st' wal_append_def wal)
    have split2: "py_split 2 (py_strip l) = [txid, ''ABORT'']"
      unfolding l_def by (rule word_line_split [OF ne ns keyword_no_space(4)]) simp
    have rep: "replay_line jload l (st\<lparr>WAL := w\<rparr>) = Inr ((snd (post_abort body st))\<lparr>WAL := w\<rparr>)"
      for w
      unfolding replay_line_def split2
      using r by (auto simp: st' wal_append_def wal)
    show ?thesis
      unfolding logged_def using wal lf(1) w' rep by blast
  qed
qed

lemma post_precommit_logged:
  assumes wal: "WAL st = Some f"
    and plain: "\<And>t. body_txid body = Inr t \<Longrightarrow> no_space t"
  shows "logged jload st (snd (post_precommit body st))"
proof (cases "body_txid body")
  case (Inl e)
  then show ?thesis by (simp add: post_precommit_def logged_def)
next
  case (Inr txid)
  show ?thesis
  proof (cases "txid \<noteq> [] \<and> (\<exists>r. TX st txid = Some r \<and> state r = READY)")
    case False
    then show ?thesis
      using Inr by (auto simp: post_precommit_def logged_def split: option.splits)
  next
    case True
    then obtain r where ne: "txid \<noteq> []" and r: "TX st txid = Some r" and s: "state r = READY"
      by blast
    define l where "l = txid @ '' '' @ ''PRECOMMIT''"
    have ns: "no_space txid" using plain Inr by simp
    have st': "snd (post_precommit body st) =
        wal_append l (st\<lparr>TX := (TX st)(txid \<mapsto> r\<lparr>state := PRECOMMIT\<rparr>)\<rparr>)"
      using Inr ne r s by (auto simp: post_precommit_def Let_def l_def)
    note lf = word_line_facts [OF ne ns keyword_no_space(5), folded l_def]
    have w': "WAL (snd (post_precommit body st)) = Some (f @ l @ [CHR 0x0A])"
      using lf(2) by (simp add: st' wal_append_def wal)
    have split2: "py_split 2 (py_strip l) = [txid, ''PRECOMMIT'']"
      unfolding l_def by (rule word_line_split [OF ne ns keyword_no_space(5)]) simp
    have rep: "replay_line jload l (st\<lparr>WAL := w\<rparr>) = Inr ((snd (post_precommit body st))\<lparr>WAL := w\<rparr>)"
      for w
      unfolding replay_line_def split2
      using r s by (auto simp: st' wal_append_def wal)
    show ?thesis
      unfolding logged_def using wal lf(1) w' rep by blast
  qed
qed

lemma do_POST_logged:
  assumes wal: "WAL st = Some f"
    and plain: "plain_txid (path, parsed)"
    and rb: "reads_back jload (path, parsed)"
  shows "logged jload st (snd (do_POST path parsed st))"
proof (cases parsed)
  case None
  then show ?thesis by (simp add: do_POST_def logged_def)
next
  case (Some body)
  have p: "\<And>t. body_txid body = Inr t \<Longrightarrow> no_space t"
    using plain Some by (simp add: plain_txid_def req_txid_def)
  have r: "\<And>opv. py_get body ''op'' JNull = Inr opv \<Longrightarrow> isinstance_dict opv \<Longrightarrow>
              jload (jdump opv) = Some opv"
    using rb Some by (simp add: reads_back_def)
  show ?thesis
    unfolding do_POST_def Some option.case
    using post_vote_logged [OF wal p r, where cmd = "''PREPARE''"]
      post_vote_logged [OF wal p r, where cmd = "''CAN_COMMIT''"]
      post_commit_logged [OF wal p] post_abort_logged [OF wal p] post_precommit_logged [OF wal p]
    by (simp add: logged_def)
qed

lemma serve_snoc:
  "serve (reqs @ [rq]) st = snd (do_POST (fst rq) (snd rq) (serve reqs st))"
proof (induction reqs arbitrary: st)
  case Nil
  show ?case by (cases rq) simp
next
  case (Cons a reqs)
  then show ?case by (cases a) simp
qed

lemma serve_replay:
  assumes "\<forall>rq\<in>set reqs. plain_txid rq" and "\<forall>rq\<in>set reqs. reads_back jload rq"
  shows "\<exists>ls. (\<forall>l\<in>set ls. CHR 0x0A \<notin> set l \<and> CHR 0x0D \<notin> set l) \<and>
     WAL (serve reqs (fresh (Some []))) = Some (concat (map (\<lambda>l. l @ [CHR 0x0A]) ls)) \<and>
     (\<forall>w. replay_lines jload ls (fresh w) = Inr ((serve reqs (fresh (Some [])))\<lparr>WAL := w\<rparr>))"
  using assms
proof (induction reqs rule: rev_induct)
  case Nil
  have "(\<forall>l\<in>set []. CHR 0x0A \<notin> set l \<and> CHR 0x0D \<notin> set l) \<and>
     WAL (serve [] (fresh (Some []))) = Some (concat (map (\<lambda>l. l @ [CHR 0x0A]) [])) \<and>
     (\<forall>w. replay_lines jload [] (fresh w) = Inr ((serve [] (fresh (Some [])))\<lparr>WAL := w\<rparr>))"
    by (simp add: fresh_def)
  then show ?case by blast
next
  case (snoc rq reqs)
  let ?st = "serve reqs (fresh (Some []))"
  let ?st' = "serve (reqs @ [rq]) (fresh (Some []))"
  from snoc obtain ls where nb: "\<forall>l\<in>set ls. CHR 0x0A \<notin> set l \<and> CHR 0x0D \<notin> set l"
    and wal: "WAL ?st = Some (concat (map (\<lambda>l. l @ [CHR 0x0A]) ls))"
    and rep: "\<And>w. replay_lines jload ls (fresh w) = Inr (?st\<lparr>WAL := w\<rparr>)"
    by auto
  have st': "?st' = snd (do_POST (fst rq) (snd rq) ?st)"
    by (rule serve_snoc)
  have "logged jload ?st ?st'"
    unfolding st' using snoc.prems by (intro do_POST_logged [OF wal]) simp_all
  then consider (same) "?st' = ?st"
    | (line) l where "CHR 0x0A \<notin> set l \<and> CHR 0x0D \<notin> set l"
        "WAL ?st' = Some (concat (map (\<lambda>l. l @ [CHR 0x0A]) ls) @ l @ [CHR 0x0A])"
        "\<And>w. replay_line jload l (?st\<lparr>WAL := w\<rparr>) = Inr (?st'\<lparr>WAL := w\<rparr>)"
    unfolding logged_def using wal by auto
  then show ?case
  proof cases
    case same
    have "(\<forall>l\<in>set ls. CHR 0x0A \<notin> set l \<and> CHR 0x0D \<notin> set l) \<and>
      WAL ?st' = Some (concat (map (\<lambda>l. l @ [CHR 0x0A]) ls)) \<and>
      (\<forall>w. replay_lines jload ls (fresh w) = Inr (?st'\<lparr>WAL := w\<rparr>))"
      using nb wal rep by (simp only: same) simp
    then show ?thesis by blast
  next
    case line
    have "(\<forall>l\<in>set (ls @ [l]). CHR 0x0A \<notin> set l \<and> CHR 0x0D \<notin> set l) \<and>
      WAL ?st' = Some (concat (map (\<lambda>l. l @ [CHR 0x0A]) (ls @ [l]))) \<and>
      (\<forall>w. replay_lines jload (ls @ [l]) (fresh w) = Inr (?st'\<lparr>WAL := w\<rparr>))"
      using nb line(1) line(2) by (simp add: replay_lines_append rep line(3))
    then show ?thesis by blast
  qed
qed

text \<open>
  Recovery equivalence where it holds. A process starts with empty tables and an empty
  log and serves requests whose txids hold no whitespace; \<open>jload\<close> reads back the
  operations that \<open>jdump\<close> wrote. Replaying the log of the run on a fresh process then
  gives the state of the live process: the same store, the same transaction table.
\<close>

theorem replay_of_plain_run:
  assumes "\<forall>rq\<in>set reqs. plain_txid rq" and "\<forall>rq\<in>set reqs. reads_back jload rq"
  shows "wal_replay jload (fresh (WAL (serve reqs (fresh (Some []))))) =
           Inr (serve reqs (fresh (Some [])))"
proof -
  let ?st = "serve reqs (fresh (Some []))"
  from serve_replay [OF assms] obtain ls
    where nb: "\<forall>l\<in>set ls. CHR 0x0A \<notin> set l \<and> CHR 0x0D \<notin> set l"
    and wal: "WAL ?st = Some (concat (map (\<lambda>l. l @ [CHR 0x0A]) ls))"
    and rep: "\<And>w. replay_lines jload ls (fresh w) = Inr (?st\<lparr>WAL := w\<rparr>)"
    by auto
  have "?st\<lparr>WAL := WAL ?st\<rparr> = ?st" by simp
  then have r: "replay_lines jload ls (fresh (WAL ?st)) = Inr ?st"
    using rep [of "WAL ?st"] by simp
  have w: "WAL (fresh (WAL ?st)) = WAL ?st"
    by (simp add: fresh_def)
  have "wal_replay jload (fresh (WAL ?st)) =
      replay_lines jload (ls @ [[]]) (fresh (WAL ?st))"
    unfolding wal_replay_def w by (simp add: wal file_lines_log [OF nb])
  also have "\<dots> = Inr ?st"
    by (simp add: replay_lines_append r replay_line_empty)
  finally show ?thesis .
qed

text \<open>
  The run \<open>/prepare TX1\<close>, \<open>/commit TX1\<close> for \<open>SET x=5\<close>: replay gives the store
  \<open>x = 5\<close> and the record \<open>COMMITTED\<close>.
\<close>

lemma replay_of_plain_run_example:
  "map_sum id (\<lambda>st. (kv st ''x'', map_option state (TX st ''TX1'')))
     (wal_replay load_set_x_5
        (fresh (WAL (serve [(''/prepare'', Some (vote_body ''TX1'' set_x_5)),
                            (''/commit'', Some (txid_body ''TX1''))] (fresh (Some []))))))
     = Inr (Some ''5'', Some COMMITTED)"
proof -
  let ?reqs = "[(''/prepare'', Some (vote_body ''TX1'' set_x_5)),
                (''/commit'', Some (txid_body ''TX1''))]"
  have t: "body_txid (vote_body ''TX1'' set_x_5) = Inr ''TX1''"
      "body_txid (txid_body ''TX1'') = Inr ''TX1''"
    by (simp_all add: body_txid_def vote_body_def txid_body_def str_eval)
  have p: "\<forall>rq\<in>set ?reqs. plain_txid rq"
    by (simp add: plain_txid_def req_txid_def t no_space_def py_isspace_def)
  have o: "py_get (vote_body ''TX1'' set_x_5) ''op'' JNull = Inr set_x_5"
      "py_get (txid_body ''TX1'') ''op'' JNull = Inr JNull"
    by (simp_all add: vote_body_def txid_body_def dict_get_def)
  have r: "\<forall>rq\<in>set ?reqs. reads_back load_set_x_5 rq"
    by (simp add: reads_back_def o load_set_x_5_def)
  have live: "kv (serve ?reqs (fresh (Some []))) ''x'' = Some ''5''"
      "map_option state (TX (serve ?reqs (fresh (Some []))) ''TX1'') = Some COMMITTED"
    by (simp_all add: handler_eval str_eval vote_body_def txid_body_def set_x_5_def)
  show ?thesis
    unfolding replay_of_plain_run [OF p r] using live by simp
qed

subsection \<open>Recovery of the participant: a txid with a space\<close>

text \<open>
  Claim C5 asks that replaying the log of a live run on a fresh process gives the
  transaction table and the store of the live process. A txid is any text that is not
  empty once stripped, and \<open>wal_replay\<close> splits each line at whitespace. After the one
  request \<open>/prepare\<close> for the txid \<open>T 1\<close>, the live process holds a \<open>READY\<close> record for
  \<open>T 1\<close>; replay reads the txid \<open>T\<close> and the command \<open>1\<close> from the line, skips it, and
  ends with an empty table, whatever \<open>jload\<close> is.
\<close>

theorem replay_loses_spaced_txid:
  "TX (serve [(''/prepare'', Some (vote_body ''T 1'' set_x_5))] (fresh (Some []))) ''T 1''
     = Some \<lparr>state = READY, op = set_x_5\<rparr> \<and>
   WAL (serve [(''/prepare'', Some (vote_body ''T 1'' set_x_5))] (fresh (Some [])))
     = Some (''T 1 PREPARE YES '' @ jdump set_x_5 @ [CHR 0x0A]) \<and>
   map_sum id TX
     (wal_replay jload
        (fresh (WAL (serve [(''/prepare'', Some (vote_body ''T 1'' set_x_5))] (fresh (Some []))))))
     = Inr Map.empty"
proof -
  define w where "w = ''T 1 PREPARE YES '' @ jdump set_x_5"
  have live: "serve [(''/prepare'', Some (vote_body ''T 1'' set_x_5))] (fresh (Some [])) =
      \<lparr>kv = Map.empty, TX = [''T 1'' \<mapsto> \<lparr>state = READY, op = set_x_5\<rparr>],
       WAL = Some (w @ [CHR 0x0A])\<rparr>"
    by (simp add: w_def handler_eval str_eval vote_body_def set_x_5_def py_rstrip_chars_def json_str_def json_char_def)
  have lines: "file_lines (w @ [CHR 0x0A]) = [w, []]"
    by (simp add: w_def set_x_5_def json_str_def json_char_def)
  have parts: "py_split 2 (py_strip w) = [''T'', ''1'', ''PREPARE YES '' @ jdump set_x_5]"
    by (simp add: w_def set_x_5_def json_str_def json_char_def py_split.simps str_eval)
  have l1: "replay_line jload w st = Inr st" for st
    unfolding replay_line_def parts by simp
  have l2: "replay_line jload [] st = Inr st" for st
    by (simp add: replay_line_def py_split.simps str_eval)
  have replay: "wal_replay jload (fresh (Some (w @ [CHR 0x0A]))) = Inr (fresh (Some (w @ [CHR 0x0A])))"
    by (simp add: wal_replay_def fresh_def lines l1 l2)
  have c: "TX (serve [(''/prepare'', Some (vote_body ''T 1'' set_x_5))] (fresh (Some []))) ''T 1''
     = Some \<lparr>state = READY, op = set_x_5\<rparr> \<and>
   WAL (serve [(''/prepare'', Some (vote_body ''T 1'' set_x_5))] (fresh (Some [])))
     = Some (w @ [CHR 0x0A]) \<and>
   map_sum id TX
     (wal_replay jload
        (fresh (WAL (serve [(''/prepare'', Some (vote_body ''T 1'' set_x_5))] (fresh (Some []))))))
     = Inr Map.empty"
    unfolding live by (simp add: replay) (simp add: fresh_def)
  from c [unfolded w_def append_assoc] show ?thesis .
qed

subsection \<open>Recovery of the participant: a record whose operation was never validated\<close>

text \<open>
  Claim C7 asks that \<open>/commit\<close> succeeds exactly when the record exists and is
  \<open>READY\<close> or \<open>PRECOMMIT\<close>, and otherwise fails with a conflict error. \<open>wal_replay\<close>
  stores a \<open>READY\<close> record for every line \<open>txid PREPARE YES op\<close> without calling
  \<open>validate_op\<close>, and a txid may hold carriage returns, at which the file is cut into
  lines when it is read. A process with an empty log serves one \<open>/prepare\<close> for
  \<open>SET x=5\<close> whose txid holds, between two carriage returns, the line of a vote \<open>YES\<close>
  of \<open>TX1\<close> for a \<open>SET\<close> without a key. After a restart the table holds a \<open>READY\<close>
  record for \<open>TX1\<close> with that operation, and \<open>/commit\<close> of \<open>TX1\<close> raises \<open>KeyError\<close>:
  it neither succeeds nor replies with the conflict error.
\<close>

theorem commit_raises_after_restart:
  "WAL (serve [(''/prepare'', Some (vote_body line_txid set_x_5))] (fresh (Some [])))
     = WAL restarted_state \<and>
   wal_replay load_two (fresh (WAL restarted_state)) = Inr restarted_state \<and>
   TX restarted_state ''TX1'' = Some \<lparr>state = READY, op = keyless_set\<rparr> \<and>
   do_POST ''/commit'' (Some (txid_body ''TX1'')) restarted_state = (Inl KeyError, restarted_state)"
proof -
  define l2 where "l2 = ''TX1 PREPARE YES '' @ jdump keyless_set"
  define l3 where "l3 = ''B PREPARE YES '' @ jdump set_x_5"
  define w where "w = line_txid @ '' PREPARE YES '' @ jdump set_x_5 @ [CHR 0x0A]"
  have wal: "WAL restarted_state = Some w"
    by (simp add: restarted_state_def w_def)
  have rs_eq: "restarted_state = \<lparr>kv = Map.empty,
      TX = [''TX1'' \<mapsto> \<lparr>state = READY, op = keyless_set\<rparr>,
            ''B'' \<mapsto> \<lparr>state = READY, op = set_x_5\<rparr>],
      WAL = Some w\<rparr>"
    by (simp add: restarted_state_def w_def)
  have tx: "TX restarted_state ''TX1'' = Some \<lparr>state = READY, op = keyless_set\<rparr>"
    by (simp add: restarted_state_def)
  have strip: "py_strip line_txid = line_txid"
    by (rule py_strip_id) (simp_all add: line_txid_def py_isspace_def)
  have txid: "body_txid (vote_body line_txid set_x_5) = Inr line_txid"
    by (simp add: body_txid_def vote_body_def dict_get_def strip)
  have ne: "line_txid \<noteq> []"
    by (simp add: line_txid_def)
  have opv: "py_get (vote_body line_txid set_x_5) ''op'' JNull =
      Inr (JObj [(''type'', JStr ''SET''), (''key'', JStr ''x''), (''value'', JStr ''5'')])"
    by (simp add: vote_body_def set_x_5_def dict_get_def)
  have rs: "py_rstrip_chars [CHR 0x0A] (line_txid @ '' PREPARE YES '' @ jdump set_x_5)
      = line_txid @ '' PREPARE YES '' @ jdump set_x_5"
    by (rule py_rstrip_chars_id) (simp_all add: set_x_5_def)
  have live: "WAL (serve [(''/prepare'', Some (vote_body line_txid set_x_5))] (fresh (Some [])))
      = Some w"
    using post_vote_ok [OF txid ne opv, of "''PREPARE''" "fresh (Some [])"] rs
    by (simp add: do_POST_def str_eval wal_append_def fresh_def w_def set_x_5_def Let_def)
  have lines: "file_lines w = [''A'', l2, l3, []]"
    by (simp add: w_def l2_def l3_def line_txid_def keyless_set_def set_x_5_def json_str_def
        json_char_def)
  have two: "load_two (jdump keyless_set) = Some keyless_set"
      "load_two (jdump set_x_5) = Some set_x_5"
    by (simp_all add: load_two_def keyless_set_def set_x_5_def json_str_def json_char_def)
  have ns: "no_space ''TX1''" "no_space ''B''"
    by (simp_all add: no_space_def py_isspace_def)
  have yes: "''YES'' = ''YES'' \<or> ''YES'' = ''NO''" by simp
  have r1: "replay_line load_two ''A'' st = Inr st" for st
    by (simp add: replay_line_def py_split.simps str_eval)
  have p2: "py_split 2 (py_strip l2) = [''TX1'', ''PREPARE'', ''YES '' @ jdump keyless_set]"
    using vote_line_split(1) [OF _ ns(1) keyword_no_space(1) _ yes, of "[(''type'', JStr ''SET'')]"]
    by (simp add: l2_def keyless_set_def)
  have q2: "py_split 1 (''YES '' @ jdump keyless_set) = [''YES'', jdump keyless_set]"
    using vote_line_split(2) [OF _ ns(1) keyword_no_space(1) _ yes, of "[(''type'', JStr ''SET'')]"]
    by (simp add: keyless_set_def)
  have p3: "py_split 2 (py_strip l3) = [''B'', ''PREPARE'', ''YES '' @ jdump set_x_5]"
    using vote_line_split(1) [OF _ ns(2) keyword_no_space(1) _ yes,
        of "[(''type'', JStr ''SET''), (''key'', JStr ''x''), (''value'', JStr ''5'')]"]
    by (simp add: l3_def set_x_5_def)
  have q3: "py_split 1 (''YES '' @ jdump set_x_5) = [''YES'', jdump set_x_5]"
    using vote_line_split(2) [OF _ ns(2) keyword_no_space(1) _ yes,
        of "[(''type'', JStr ''SET''), (''key'', JStr ''x''), (''value'', JStr ''5'')]"]
    by (simp add: set_x_5_def)
  have jne: "jdump keyless_set \<noteq> []" "jdump set_x_5 \<noteq> []"
    by (simp_all add: keyless_set_def set_x_5_def)
  have r2: "replay_line load_two l2 st =
      Inr (st\<lparr>TX := (TX st)(''TX1'' \<mapsto> \<lparr>state = READY, op = keyless_set\<rparr>)\<rparr>)" for st
    unfolding replay_line_def p2
    by (simp only: list.case q2 two jne if_True if_False option.case simp_thms refl)
  have r3: "replay_line load_two l3 st =
      Inr (st\<lparr>TX := (TX st)(''B'' \<mapsto> \<lparr>state = READY, op = set_x_5\<rparr>)\<rparr>)" for st
    unfolding replay_line_def p3
    by (simp only: list.case q3 two jne if_True if_False option.case simp_thms refl)
  have r4: "replay_line load_two [] st = Inr st" for st
    by (rule replay_line_empty)
  have replay: "wal_replay load_two (fresh (Some w)) = Inr restarted_state"
    by (simp add: wal_replay_def fresh_def lines r1 r2 r3 r4 rs_eq)
  have commit: "do_POST ''/commit'' (Some (txid_body ''TX1'')) restarted_state
      = (Inl KeyError, restarted_state)"
    by (simp add: handler_eval str_eval txid_body_def restarted_state_def keyless_set_def)
  show ?thesis
    unfolding wal using live replay tx commit by simp
qed

end
